theory Spec2Isabelle
  imports Complex_Main
begin

section \<open>Python values\<close>

text \<open>
  The plugin (\<^verbatim>\<open>src/manager.py\<close>, class \<^verbatim>\<open>YouTubeStatsPlugin\<close>) handles the decoded
  body of the statistics endpoint with plain subscripting and \<^verbatim>\<open>int()\<close>. The decoded
  body is whatever \<^verbatim>\<open>response.json()\<close> returns: \<^verbatim>\<open>None\<close>, a bool, an int, a float, a
  str, a list or a dict with str keys. A \<open>char\<close> stands for one code point below 256,
  so \<open>length\<close> is Python's \<^verbatim>\<open>len\<close> on such strings. A float is its exact value, or one
  of the three special values the decoder accepts (\<^verbatim>\<open>Infinity\<close>, \<^verbatim>\<open>-Infinity\<close>,
  \<^verbatim>\<open>NaN\<close>). A dict is an association list with distinct keys.
\<close>

datatype pyfloat = Finite rat | PosInf | NegInf | NaN

datatype pyval =
    VNone
  | VBool bool
  | VInt int
  | VFloat pyfloat
  | VStr string
  | VList "pyval list"
  | VDict "(string \<times> pyval) list"

text \<open>The exceptions that the modelled statements can raise.\<close>

datatype py_exn =
    RequestException
  | KeyError
  | IndexError
  | ValueError
  | TypeError
  | OverflowError
  | RecursionError

text \<open>Sequencing of statements that may raise: the first exception wins.\<close>

definition exn_bind :: "py_exn + 'a \<Rightarrow> ('a \<Rightarrow> py_exn + 'b) \<Rightarrow> py_exn + 'b" where
  "exn_bind m f = (case m of Inl e \<Rightarrow> Inl e | Inr x \<Rightarrow> f x)"

text \<open>Truth value of an object (\<^verbatim>\<open>if x:\<close>).\<close>

fun py_truthy :: "pyval \<Rightarrow> bool" where
  "py_truthy VNone = False"
| "py_truthy (VBool b) = b"
| "py_truthy (VInt i) = (i \<noteq> 0)"
| "py_truthy (VFloat f) = (f \<noteq> Finite 0)"
| "py_truthy (VStr s) = (s \<noteq> [])"
| "py_truthy (VList xs) = (xs \<noteq> [])"
| "py_truthy (VDict kvs) = (kvs \<noteq> [])"

text \<open>
  \<^verbatim>\<open>a == b\<close>. Numbers (bool, int, float) compare by value across the three types and
  \<^verbatim>\<open>NaN\<close> equals nothing; lists compare element by element; dicts compare by size and
  then by looking every key of the left one up in the right one. Object identity is not
  modelled.
\<close>

fun num_of :: "pyval \<Rightarrow> pyfloat option" where
  "num_of (VBool b) = Some (Finite (if b then 1 else 0))"
| "num_of (VInt i) = Some (Finite (of_int i))"
| "num_of (VFloat f) = Some f"
| "num_of VNone = None"
| "num_of (VStr s) = None"
| "num_of (VList xs) = None"
| "num_of (VDict kvs) = None"

fun py_eq :: "pyval \<Rightarrow> pyval \<Rightarrow> bool"
  and py_eq_list :: "pyval list \<Rightarrow> pyval list \<Rightarrow> bool"
  and py_eq_items :: "(string \<times> pyval) list \<Rightarrow> (string \<times> pyval) list \<Rightarrow> bool" where
  "py_eq VNone b = (b = VNone)"
| "py_eq (VStr s) b = (b = VStr s)"
| "py_eq (VBool x) b = (case num_of b of Some g \<Rightarrow> g = Finite (if x then 1 else 0) | None \<Rightarrow> False)"
| "py_eq (VInt i) b = (case num_of b of Some g \<Rightarrow> g = Finite (of_int i) | None \<Rightarrow> False)"
| "py_eq (VFloat f) b = (case num_of b of Some g \<Rightarrow> f \<noteq> NaN \<and> g = f | None \<Rightarrow> False)"
| "py_eq (VList xs) b = (case b of VList ys \<Rightarrow> py_eq_list xs ys | _ \<Rightarrow> False)"
| "py_eq (VDict kvs) b =
     (case b of VDict kws \<Rightarrow> length kvs = length kws \<and> py_eq_items kvs kws | _ \<Rightarrow> False)"
| "py_eq_list [] ys = (ys = [])"
| "py_eq_list (x # xs) ys = (case ys of [] \<Rightarrow> False | y # ys' \<Rightarrow> py_eq x y \<and> py_eq_list xs ys')"
| "py_eq_items [] kws = True"
| "py_eq_items (kv # kvs) kws =
     ((case map_of kws (fst kv) of None \<Rightarrow> False | Some w \<Rightarrow> py_eq (snd kv) w)
      \<and> py_eq_items kvs kws)"

definition py_ne :: "pyval \<Rightarrow> pyval \<Rightarrow> bool" where
  "py_ne a b = (\<not> py_eq a b)"

text \<open>\<^verbatim>\<open>key in obj\<close> for a str \<open>key\<close>.\<close>

fun contains_sub :: "string \<Rightarrow> string \<Rightarrow> bool" where
  "contains_sub p [] = (p = [])"
| "contains_sub p (c # cs) = (take (length p) (c # cs) = p \<or> contains_sub p cs)"

fun py_contains :: "string \<Rightarrow> pyval \<Rightarrow> py_exn + bool" where
  "py_contains key (VDict kvs) = Inr (key \<in> set (map fst kvs))"
| "py_contains key (VList xs) = Inr (list_ex (\<lambda>x. py_eq x (VStr key)) xs)"
| "py_contains key (VStr s) = Inr (contains_sub key s)"
| "py_contains key VNone = Inl TypeError"
| "py_contains key (VBool b) = Inl TypeError"
| "py_contains key (VInt i) = Inl TypeError"
| "py_contains key (VFloat f) = Inl TypeError"

text \<open>\<^verbatim>\<open>obj[key]\<close> for a str \<open>key\<close>, and \<^verbatim>\<open>obj[0]\<close>.\<close>

fun py_getitem :: "pyval \<Rightarrow> string \<Rightarrow> py_exn + pyval" where
  "py_getitem (VDict kvs) key = (case map_of kvs key of None \<Rightarrow> Inl KeyError | Some v \<Rightarrow> Inr v)"
| "py_getitem (VList xs) key = Inl TypeError"
| "py_getitem (VStr s) key = Inl TypeError"
| "py_getitem VNone key = Inl TypeError"
| "py_getitem (VBool b) key = Inl TypeError"
| "py_getitem (VInt i) key = Inl TypeError"
| "py_getitem (VFloat f) key = Inl TypeError"

fun py_getitem0 :: "pyval \<Rightarrow> py_exn + pyval" where
  "py_getitem0 (VList xs) = (case xs of [] \<Rightarrow> Inl IndexError | x # _ \<Rightarrow> Inr x)"
| "py_getitem0 (VStr s) = (case s of [] \<Rightarrow> Inl IndexError | c # _ \<Rightarrow> Inr (VStr [c]))"
| "py_getitem0 (VDict kvs) = Inl KeyError"
| "py_getitem0 VNone = Inl TypeError"
| "py_getitem0 (VBool b) = Inl TypeError"
| "py_getitem0 (VInt i) = Inl TypeError"
| "py_getitem0 (VFloat f) = Inl TypeError"

subsection \<open>The built-in \<^verbatim>\<open>int()\<close>\<close>

text \<open>
  On a str: surrounding whitespace is dropped, then an optional sign, then decimal
  digits in which single underscores may separate digits; anything else is a
  \<^verbatim>\<open>ValueError\<close>. On a float: truncation towards zero, \<^verbatim>\<open>ValueError\<close> for
  \<^verbatim>\<open>NaN\<close> and \<^verbatim>\<open>OverflowError\<close> for an infinity. On an int or a bool: the value.
  On anything else: \<^verbatim>\<open>TypeError\<close>. (The interpreter's optional limit on the number
  of digits, which turns a very long digit string into a \<^verbatim>\<open>ValueError\<close>, is not
  modelled.)
\<close>

definition py_isspace :: "char \<Rightarrow> bool" where
  "py_isspace c =
     (let n = (of_char c :: nat) in (9 \<le> n \<and> n \<le> 13) \<or> n = 32 \<or> n = 133 \<or> n = 160)"

definition py_strip :: "string \<Rightarrow> string" where
  "py_strip s = rev (dropWhile py_isspace (rev (dropWhile py_isspace s)))"

definition is_digit :: "char \<Rightarrow> bool" where
  "is_digit c = (let n = (of_char c :: nat) in 48 \<le> n \<and> n \<le> 57)"

definition digit_val :: "char \<Rightarrow> int" where
  "digit_val c = int (of_char c) - 48"

fun digits_ok :: "bool \<Rightarrow> string \<Rightarrow> bool" where
  "digits_ok prev_digit [] = prev_digit"
| "digits_ok prev_digit (c # cs) =
     (if is_digit c then digits_ok True cs
      else if c = CHR ''_'' \<and> prev_digit then digits_ok False cs
      else False)"

definition digits_value :: "string \<Rightarrow> int" where
  "digits_value ds = foldl (\<lambda>acc c. 10 * acc + digit_val c) 0 (filter is_digit ds)"

definition int_of_str :: "string \<Rightarrow> py_exn + int" where
  "int_of_str s =
     (let t = py_strip s;
          (sign, ds) = (case t of
                          c # r \<Rightarrow> if c = CHR ''-'' then (- 1, r)
                                   else if c = CHR ''+'' then (1, r)
                                   else (1, t)
                        | [] \<Rightarrow> (1, t))
      in if digits_ok False ds then Inr (sign * digits_value ds) else Inl ValueError)"

definition trunc_rat :: "rat \<Rightarrow> int" where
  "trunc_rat r = (if 0 \<le> r then \<lfloor>r\<rfloor> else \<lceil>r\<rceil>)"

fun py_int :: "pyval \<Rightarrow> py_exn + int" where
  "py_int (VInt i) = Inr i"
| "py_int (VBool b) = Inr (if b then 1 else 0)"
| "py_int (VStr s) = int_of_str s"
| "py_int (VFloat (Finite r)) = Inr (trunc_rat r)"
| "py_int (VFloat NaN) = Inl ValueError"
| "py_int (VFloat PosInf) = Inl OverflowError"
| "py_int (VFloat NegInf) = Inl OverflowError"
| "py_int VNone = Inl TypeError"
| "py_int (VList xs) = Inl TypeError"
| "py_int (VDict kvs) = Inl TypeError"

section \<open>The plugin and its collaborators\<close>

text \<open>
  A stats snapshot is the dict built on lines 161-165, with exactly the keys
  \<^verbatim>\<open>title\<close>, \<^verbatim>\<open>subscribers\<close> and \<^verbatim>\<open>views\<close>; such a dict is never empty, so its truth
  value is \<open>True\<close>. The title is whatever the response holds; the two counts are
  results of \<^verbatim>\<open>int()\<close>.
\<close>

record stats =
  title :: pyval
  subscribers :: int
  views :: int

text \<open>The two assets loaded at construction, and the image that composition produces.\<close>

record logo =
  img_width :: int
  img_height :: int

datatype font = TrueTypeFont | DefaultFont

record image =
  canvas_size :: "int \<times> int"
  logo_box :: "(int \<times> int) \<times> (int \<times> int)"
  texts :: "((int \<times> int) \<times> pyval) list"

text \<open>
  Calls on the collaborators, in the order the code makes them. A call of
  \<^verbatim>\<open>_create_display\<close> is recorded with its argument and result, and the assignment to
  \<^verbatim>\<open>self.last_displayed_stats\<close> with the value assigned.
\<close>

datatype event =
    CacheGet string int
  | HttpGet string
  | CounterCall
  | CacheSet string stats int
  | SurfaceClear
  | ComposeCall stats "image option"
  | SetImage image
  | UpdateDisplay
  | StoreLastDisplayed stats

text \<open>
  What the network does with the one request a fetch can issue: \<^verbatim>\<open>requests.get\<close> raises
  (connection error, timeout), \<^verbatim>\<open>raise_for_status\<close> raises (status outside 2xx),
  \<^verbatim>\<open>response.json()\<close> raises, or the body decodes. The exceptions of the first two
  steps are \<^verbatim>\<open>RequestException\<close>s. The decoder raises \<^verbatim>\<open>JSONDecodeError\<close>, a
  \<^verbatim>\<open>RequestException\<close> and a \<^verbatim>\<open>ValueError\<close>, when the body is not JSON
  (\<open>JsonRaises\<close>), and \<^verbatim>\<open>RecursionError\<close> when the body is JSON nested deeper than the
  interpreter's recursion limit (\<open>JsonTooDeep\<close>).
\<close>

datatype http_outcome = GetRaises | StatusRaises | JsonRaises | JsonTooDeep | JsonBody pyval

text \<open>
  The usage counter: the real one of the web interface, the no-op fallback defined on
  lines 22-25 when the import fails, or one whose call raises.
\<close>

datatype counter_mode = CounterWorks | CounterAbsent | CounterRaises

text \<open>
  The plugin's attributes, together with the state of the two collaborators a fetch
  writes to: the cache store (a value and the time it was stored, per key) and the
  usage counter.
\<close>

record plugin =
  plugin_id :: string
  enabled :: bool
  channel_id :: string
  api_key :: string
  update_interval_config :: int
  channel_stats :: "stats option"
  font :: "font option"
  youtube_logo :: "logo option"
  last_displayed_stats :: "stats option"
  cache :: "string \<Rightarrow> (stats \<times> int) option"
  api_counter :: nat

text \<open>
  What one call of \<^verbatim>\<open>update\<close> or \<^verbatim>\<open>display\<close> meets outside the plugin: the clock, the
  network, the counter, the matrix dimensions of the display manager, the results of
  the two floating-point expressions on lines 194-195, and which calls of the imaging
  library return (\<open>None\<close> or \<open>False\<close>: the call raises).
\<close>

record env =
  now :: int
  http :: http_outcome
  counter :: counter_mode
  matrix_width :: int
  matrix_height :: int
  float_logo_height :: "int \<Rightarrow> int"
  float_logo_width :: "int \<Rightarrow> int \<Rightarrow> int \<Rightarrow> int"
  image_new_ok :: "int \<Rightarrow> int \<Rightarrow> bool"
  resize_ok :: "logo \<Rightarrow> int \<Rightarrow> int \<Rightarrow> bool"
  paste_ok :: "int \<Rightarrow> int \<Rightarrow> bool"
  textbbox :: "font \<Rightarrow> pyval \<Rightarrow> (int \<times> int \<times> int \<times> int) option"
  draw_text_ok :: "int \<times> int \<Rightarrow> pyval \<Rightarrow> font \<Rightarrow> bool"

subsection \<open>The cache manager\<close>

text \<open>
  Modelled from the spec: the cache manager is the host's and not among the sources.
  \<^verbatim>\<open>get(key, maxAge)\<close> accepts only an entry younger than \<open>maxAge\<close>;
  \<^verbatim>\<open>set(key, value, ttl)\<close> stores the value. The plugin passes the same refresh
  interval as \<open>maxAge\<close> and as \<open>ttl\<close>, so the one age test stands for both.
\<close>

definition cache_get ::
  "(string \<Rightarrow> (stats \<times> int) option) \<Rightarrow> int \<Rightarrow> string \<Rightarrow> int \<Rightarrow> stats option" where
  "cache_get c t key max_age =
     (case c key of
        None \<Rightarrow> None
      | Some (v, stored) \<Rightarrow> if t - stored < max_age then Some v else None)"

definition cache_set ::
  "(string \<Rightarrow> (stats \<times> int) option) \<Rightarrow> int \<Rightarrow> string \<Rightarrow> stats \<Rightarrow> (string \<Rightarrow> (stats \<times> int) option)" where
  "cache_set c t key v = c(key \<mapsto> (v, t))"

subsection \<open>\<^verbatim>\<open>_get_channel_stats\<close>\<close>

text \<open>
  Lines 159-173 without the cache write: the stats read from the decoded body, \<open>None\<close>
  when \<^verbatim>\<open>items\<close> is missing or empty, or the exception raised on the way. The dict
  display evaluates the title first, then the subscriber count, then the view count.
\<close>

definition parse_stats :: "pyval \<Rightarrow> py_exn + stats option" where
  "parse_stats data =
     exn_bind (py_contains ''items'' data) (\<lambda>has_items.
       if \<not> has_items then Inr None
       else exn_bind (py_getitem data ''items'') (\<lambda>items.
         if \<not> py_truthy items then Inr None
         else exn_bind (py_getitem0 items) (\<lambda>channel.
           exn_bind (py_getitem channel ''snippet'') (\<lambda>snippet.
           exn_bind (py_getitem snippet ''title'') (\<lambda>ttl.
           exn_bind (py_getitem channel ''statistics'') (\<lambda>statistics.
           exn_bind (py_getitem statistics ''subscriberCount'') (\<lambda>sc.
           exn_bind (py_int sc) (\<lambda>subs.
           exn_bind (py_getitem channel ''statistics'') (\<lambda>statistics'.
           exn_bind (py_getitem statistics' ''viewCount'') (\<lambda>vc.
           exn_bind (py_int vc) (\<lambda>vws.
             Inr (Some \<lparr>title = ttl, subscribers = subs, views = vws\<rparr>))))))))))))"

text \<open>The exceptions that the two \<^verbatim>\<open>except\<close> clauses on lines 174-179 catch.\<close>

definition caught :: "py_exn \<Rightarrow> bool" where
  "caught x = (x = RequestException \<or> x = KeyError \<or> x = ValueError \<or> x = TypeError)"

definition call_counter :: "counter_mode \<Rightarrow> plugin \<Rightarrow> plugin" where
  "call_counter m s =
     (case m of
        CounterWorks \<Rightarrow> s\<lparr>api_counter := api_counter s + 1\<rparr>
      | CounterAbsent \<Rightarrow> s
      | CounterRaises \<Rightarrow> s)"

text \<open>The URL built on line 146.\<close>

definition fetch_url :: "plugin \<Rightarrow> string" where
  "fetch_url s =
     ''https://www.googleapis.com/youtube/v3/channels?part=statistics,snippet&id=''
       @ channel_id s @ ''&key='' @ api_key s"

text \<open>
  The result is the returned value (\<open>Inr\<close>) or the exception that leaves the method
  (\<open>Inl\<close>), the plugin afterwards, and the calls made. Log calls are left out. The
  cache holds stats dicts only, which are true, so the test \<^verbatim>\<open>if cached:\<close> on line 142
  asks whether the lookup found an entry. The counter is called on line 155, after the
  body has been decoded and before it is looked at; whatever that call raises is
  swallowed. The handlers on lines 174-179 catch the exceptions of the transport and the
  \<^verbatim>\<open>JSONDecodeError\<close> of the decoder; its \<^verbatim>\<open>RecursionError\<close> is none of the caught
  classes and leaves the method.
\<close>

definition get_channel_stats :: "env \<Rightarrow> plugin \<Rightarrow> (py_exn + stats option) \<times> plugin \<times> event list" where
  "get_channel_stats e s =
     (if api_key s = [] then (Inr None, s, [])
      else if channel_id s = [] then (Inr None, s, [])
      else
        (let cache_key = plugin_id s @ ''_channel_stats'';
             look = [CacheGet cache_key (update_interval_config s)]
         in (case cache_get (cache s) (now e) cache_key (update_interval_config s) of
               Some cached \<Rightarrow> (Inr (Some cached), s, look)
             | None \<Rightarrow>
                 (let url = fetch_url s
                  in (case http e of
                        GetRaises \<Rightarrow> (Inr None, s, look @ [HttpGet url])
                      | StatusRaises \<Rightarrow> (Inr None, s, look @ [HttpGet url])
                      | JsonRaises \<Rightarrow> (Inr None, s, look @ [HttpGet url])
                      | JsonTooDeep \<Rightarrow> (Inl RecursionError, s, look @ [HttpGet url])
                      | JsonBody data \<Rightarrow>
                          (let s1 = call_counter (counter e) s;
                               calls = look @ [HttpGet url, CounterCall]
                           in (case parse_stats data of
                                 Inr (Some st) \<Rightarrow>
                                   (Inr (Some st),
                                    s1\<lparr>cache := cache_set (cache s1) (now e) cache_key st\<rparr>,
                                    calls @ [CacheSet cache_key st (update_interval_config s)])
                               | Inr None \<Rightarrow> (Inr None, s1, calls)
                               | Inl x \<Rightarrow>
                                   (if caught x then (Inr None, s1, calls)
                                    else (Inl x, s1, calls)))))))))"

subsection \<open>\<^verbatim>\<open>update\<close>\<close>

definition update :: "env \<Rightarrow> plugin \<Rightarrow> py_exn option \<times> plugin \<times> event list" where
  "update e s =
     (if \<not> enabled s then (None, s, [])
      else case get_channel_stats e s of
             (Inl x, s1, calls) \<Rightarrow> (Some x, s1, calls)
           | (Inr r, s1, calls) \<Rightarrow> (None, s1\<lparr>channel_stats := r\<rparr>, calls))"

subsection \<open>\<^verbatim>\<open>_create_display\<close>\<close>

text \<open>\<^verbatim>\<open>len(x)\<close> (\<open>None\<close>: \<^verbatim>\<open>TypeError\<close>) and the slice \<^verbatim>\<open>x[:k]\<close>, whose negative \<open>k\<close> counts from the end.\<close>

fun py_len :: "pyval \<Rightarrow> int option" where
  "py_len (VStr s) = Some (int (length s))"
| "py_len (VList xs) = Some (int (length xs))"
| "py_len (VDict kvs) = Some (int (length kvs))"
| "py_len VNone = None"
| "py_len (VBool b) = None"
| "py_len (VInt i) = None"
| "py_len (VFloat f) = None"

definition py_slice_to :: "'a list \<Rightarrow> int \<Rightarrow> 'a list" where
  "py_slice_to xs k = (if k < 0 then take (nat (int (length xs) + k)) xs else take (nat k) xs)"

text \<open>
  Lines 217-218. \<open>None\<close> stands for an exception, which \<^verbatim>\<open>_create_display\<close> catches:
  \<^verbatim>\<open>len\<close> of an object without a length, or a list or dict too long to fit (neither
  can be sliced and then joined with a str).
\<close>

definition truncate_name :: "int \<Rightarrow> pyval \<Rightarrow> pyval option" where
  "truncate_name max_chars channel_name =
     (case py_len channel_name of
        None \<Rightarrow> None
      | Some n \<Rightarrow>
          if n > max_chars
          then (case channel_name of
                  VStr s \<Rightarrow> Some (VStr (py_slice_to s (max_chars - 3) @ ''...''))
                | _ \<Rightarrow> None)
          else Some channel_name)"

text \<open>The format \<^verbatim>\<open>{n:,}\<close>: decimal digits in groups of three, a minus sign if negative.\<close>

fun digits_of_nat :: "nat \<Rightarrow> string" where
  "digits_of_nat n =
     (if n < 10 then [''0123456789'' ! n]
      else digits_of_nat (n div 10) @ [''0123456789'' ! (n mod 10)])"

fun group_thousands :: "string \<Rightarrow> string" where
  "group_thousands ds =
     (if length ds \<le> 3 then ds
      else group_thousands (take (length ds - 3) ds) @ '','' @ drop (length ds - 3) ds)"

definition format_thousands :: "int \<Rightarrow> string" where
  "format_thousands i = (if i < 0 then ''-'' else []) @ group_thousands (digits_of_nat (nat \<bar>i\<bar>))"

text \<open>
  One text line (the pattern of lines 219-222, 226-229 and 233-236): measure the text,
  centre it in the region right of the logo, draw it.
\<close>

definition draw_centered :: "env \<Rightarrow> font \<Rightarrow> int \<Rightarrow> int \<Rightarrow> pyval \<Rightarrow> ((int \<times> int) \<times> pyval) option" where
  "draw_centered e fnt right_section_x y txt =
     (case textbbox e fnt txt of
        None \<Rightarrow> None
      | Some (x0, y0, x1, y1) \<Rightarrow>
          (let text_width = x1 - x0;
               text_x = right_section_x + ((matrix_width e - right_section_x - text_width) div 2)
           in if draw_text_ok e (text_x, y) txt fnt then Some ((text_x, y), txt) else None))"

text \<open>
  The body of the \<^verbatim>\<open>try\<close> block, lines 187-238, for a logo and a font that are
  present. \<open>None\<close> stands for an exception, which line 239 catches. The division on
  line 195 raises when the logo has height zero.
\<close>

definition compose_image :: "env \<Rightarrow> logo \<Rightarrow> font \<Rightarrow> stats \<Rightarrow> image option" where
  "compose_image e lg fnt cs =
     (if \<not> image_new_ok e (matrix_width e) (matrix_height e) then None
      else if img_height lg = 0 then None
      else
     (let logo_height = float_logo_height e (matrix_height e);
          logo_width = float_logo_width e (img_width lg) logo_height (img_height lg);
          logo_x = 2;
          logo_y = (matrix_height e - logo_height) div 2;
          right_section_x = logo_x + logo_width + 4;
          line_height = 10;
          total_text_height = line_height * 3;
          start_y = (matrix_height e - total_text_height) div 2;
          max_chars = (matrix_width e - right_section_x - 4) div 8
      in if \<not> resize_ok e lg logo_width logo_height then None
         else if \<not> paste_ok e logo_x logo_y then None
         else
     (case truncate_name max_chars (title cs) of
        None \<Rightarrow> None
      | Some channel_name \<Rightarrow>
     (case draw_centered e fnt right_section_x start_y channel_name of
        None \<Rightarrow> None
      | Some name_text \<Rightarrow>
     (case draw_centered e fnt right_section_x (start_y + line_height)
             (VStr (format_thousands (subscribers cs) @ '' subs'')) of
        None \<Rightarrow> None
      | Some subs_text \<Rightarrow>
     (case draw_centered e fnt right_section_x (start_y + line_height * 2)
             (VStr (format_thousands (views cs) @ '' views'')) of
        None \<Rightarrow> None
      | Some views_text \<Rightarrow>
          Some \<lparr>canvas_size = (matrix_width e, matrix_height e),
                logo_box = ((logo_x, logo_y), (logo_width, logo_height)),
                texts = [name_text, subs_text, views_text]\<rparr>))))))"

text \<open>
  The argument is a stats dict, which is never empty, so the first test on line 183
  cannot fire; an image or a font object is always true.
\<close>

definition create_display :: "env \<Rightarrow> plugin \<Rightarrow> stats \<Rightarrow> image option" where
  "create_display e s cs =
     (case youtube_logo s of
        None \<Rightarrow> None
      | Some lg \<Rightarrow>
          (case font s of
             None \<Rightarrow> None
           | Some fnt \<Rightarrow> compose_image e lg fnt cs))"

subsection \<open>\<^verbatim>\<open>display\<close>\<close>

text \<open>Lines 262-267: the comparison with the snapshot displayed last.\<close>

definition stats_changed :: "stats option \<Rightarrow> stats \<Rightarrow> bool" where
  "stats_changed last_displayed cur =
     (case last_displayed of
        None \<Rightarrow> True
      | Some l \<Rightarrow>
          subscribers l \<noteq> subscribers cur \<or> views l \<noteq> views cur \<or> py_ne (title l) (title cur))"

definition display :: "env \<Rightarrow> bool \<Rightarrow> plugin \<Rightarrow> py_exn option \<times> plugin \<times> event list" where
  "display e force_clear s =
     (if \<not> enabled s then (None, s, [])
      else
     (case (if channel_stats s = None then update e s else (None, s, [])) of
        (Some x, s1, calls) \<Rightarrow> (Some x, s1, calls)
      | (None, s1, calls) \<Rightarrow>
     (case channel_stats s1 of
        None \<Rightarrow> (None, s1, calls)
      | Some cur \<Rightarrow>
     (if \<not> force_clear \<and> \<not> stats_changed (last_displayed_stats s1) cur then (None, s1, calls)
      else
     (let cleared = (if force_clear then [SurfaceClear] else [])
      in (case create_display e s1 cur of
            None \<Rightarrow> (None, s1, calls @ cleared @ [ComposeCall cur None])
          | Some display_image \<Rightarrow>
              (None,
               s1\<lparr>last_displayed_stats := Some cur\<rparr>,
               calls @ cleared @
                 [ComposeCall cur (Some display_image), SetImage display_image,
                  UpdateDisplay, StoreLastDisplayed cur])))))))"

subsection \<open>The states of a plugin\<close>

text \<open>
  The states a plugin can be in when one of its methods is called. The constructor
  leaves both snapshots \<open>None\<close> (lines 55 and 58); it is the only place that clears
  \<^verbatim>\<open>enabled\<close> (lines 124 and 127, when the logo cannot be loaded), so a constructed
  plugin may be enabled or not, with or without its assets. Afterwards the attributes
  change in \<open>update\<close> and \<open>display\<close> only, while the cache and the usage counter, which
  belong to the host, may change between two calls.
\<close>

inductive reachable :: "plugin \<Rightarrow> bool" where
  constructed: "channel_stats s = None \<Longrightarrow> last_displayed_stats s = None \<Longrightarrow> reachable s"
| after_update: "reachable s \<Longrightarrow> update e s = (r, s', calls) \<Longrightarrow> reachable s'"
| after_display: "reachable s \<Longrightarrow> display e fc s = (r, s', calls) \<Longrightarrow> reachable s'"
| collaborators: "reachable s \<Longrightarrow> reachable (s\<lparr>cache := c, api_counter := n\<rparr>)"

section \<open>Sample inputs\<close>

text \<open>
  The end-to-end scenario of the specification: resource \<^verbatim>\<open>UC123\<close>, credential
  \<^verbatim>\<open>key\<close>, refresh interval 300, and a response with title \<^verbatim>\<open>Test Channel\<close>,
  1234 subscribers and 56789 views, on a 128 by 32 matrix whose imaging calls all
  return and whose font is 8 pixels wide per character.
\<close>

definition sample_response :: pyval where
  "sample_response =
     VDict [(''items'', VList [VDict
       [(''snippet'', VDict [(''title'', VStr ''Test Channel'')]),
        (''statistics'',
           VDict [(''subscriberCount'', VStr ''1234''), (''viewCount'', VStr ''56789'')])]])]"

definition sample_stats :: stats where
  "sample_stats = \<lparr>title = VStr ''Test Channel'', subscribers = 1234, views = 56789\<rparr>"

definition sample_plugin :: plugin where
  "sample_plugin =
     \<lparr>plugin_id = ''youtube-stats'', enabled = True, channel_id = ''UC123'', api_key = ''key'',
      update_interval_config = 300, channel_stats = None, font = Some DefaultFont,
      youtube_logo = Some \<lparr>img_width = 64, img_height = 64\<rparr>, last_displayed_stats = None,
      cache = (\<lambda>k. None), api_counter = 0\<rparr>"

definition sample_env :: env where
  "sample_env =
     \<lparr>now = 1000, http = JsonBody sample_response, counter = CounterWorks,
      matrix_width = 128, matrix_height = 32,
      float_logo_height = (\<lambda>h. (h * 6) div 10),
      float_logo_width = (\<lambda>w lh h. (w * lh) div h),
      image_new_ok = (\<lambda>w h. True), resize_ok = (\<lambda>l w h. True), paste_ok = (\<lambda>x y. True),
      textbbox = (\<lambda>f t. case t of VStr s \<Rightarrow> Some (0, 0, 8 * int (length s), 8) | _ \<Rightarrow> None),
      draw_text_ok = (\<lambda>p t f. True)\<rparr>"

section \<open>Classifying calls\<close>

fun is_fetch_call :: "event \<Rightarrow> bool" where
  "is_fetch_call (CacheGet k a) = True"
| "is_fetch_call (HttpGet u) = True"
| "is_fetch_call CounterCall = True"
| "is_fetch_call (CacheSet k v t) = True"
| "is_fetch_call SurfaceClear = False"
| "is_fetch_call (ComposeCall st r) = False"
| "is_fetch_call (SetImage i) = False"
| "is_fetch_call UpdateDisplay = False"
| "is_fetch_call (StoreLastDisplayed st) = False"

fun is_http_get :: "event \<Rightarrow> bool" where
  "is_http_get (HttpGet u) = True"
| "is_http_get (CacheGet k a) = False"
| "is_http_get CounterCall = False"
| "is_http_get (CacheSet k v t) = False"
| "is_http_get SurfaceClear = False"
| "is_http_get (ComposeCall st r) = False"
| "is_http_get (SetImage i) = False"
| "is_http_get UpdateDisplay = False"
| "is_http_get (StoreLastDisplayed st) = False"

fun is_update_display :: "event \<Rightarrow> bool" where
  "is_update_display UpdateDisplay = True"
| "is_update_display (HttpGet u) = False"
| "is_update_display (CacheGet k a) = False"
| "is_update_display CounterCall = False"
| "is_update_display (CacheSet k v t) = False"
| "is_update_display SurfaceClear = False"
| "is_update_display (ComposeCall st r) = False"
| "is_update_display (SetImage i) = False"
| "is_update_display (StoreLastDisplayed st) = False"

text \<open>
  The calls of lines 272-281 for a snapshot \<open>cur\<close> whose composition gave \<open>res\<close>: the
  clear when forced, the composition, and after a composition that gave an image the
  hand-off, the update of the surface and the assignment to \<^verbatim>\<open>last_displayed_stats\<close>.
\<close>

definition handed_off :: "stats \<Rightarrow> image option \<Rightarrow> event list" where
  "handed_off cur res =
     (case res of
        None \<Rightarrow> []
      | Some img \<Rightarrow> [SetImage img, UpdateDisplay, StoreLastDisplayed cur])"

definition rendered :: "bool \<Rightarrow> stats \<Rightarrow> image option \<Rightarrow> event list" where
  "rendered force_clear cur res =
     (if force_clear then [SurfaceClear] else []) @
     (case res of
        None \<Rightarrow> [ComposeCall cur None]
      | Some img \<Rightarrow> [ComposeCall cur (Some img), SetImage img, UpdateDisplay, StoreLastDisplayed cur])"

text \<open>
  Lines 259-282 of \<^verbatim>\<open>display\<close> on their own, for a plugin \<open>s1\<close> that holds the snapshot
  \<open>cur\<close> after the calls \<open>calls\<close>; used to take \<open>display\<close> apart in the proofs.
\<close>

definition redraw :: "env \<Rightarrow> bool \<Rightarrow> plugin \<Rightarrow> event list \<Rightarrow> stats \<Rightarrow> py_exn option \<times> plugin \<times> event list" where
  "redraw e fc s1 calls cur =
     (if \<not> fc \<and> \<not> stats_changed (last_displayed_stats s1) cur then (None, s1, calls)
      else (None,
            (case create_display e s1 cur of
               None \<Rightarrow> s1
             | Some img \<Rightarrow> s1\<lparr>last_displayed_stats := Some cur\<rparr>),
            calls @ rendered fc cur (create_display e s1 cur)))"

text \<open>
  The two ways a call of \<open>display\<close> can end: without a composition (only fetch calls
  were made and the snapshot displayed last is untouched), or with one composition of
  the snapshot \<open>cur\<close>, after the fetch calls \<open>pre\<close>.
\<close>

definition quiet :: "bool \<Rightarrow> plugin \<Rightarrow> plugin \<Rightarrow> event list \<Rightarrow> bool" where
  "quiet fc s s' calls =
     (list_all is_fetch_call calls \<and> last_displayed_stats s' = last_displayed_stats s
      \<and> (enabled s \<and> fc \<longrightarrow> channel_stats s' = None))"

definition attempted ::
  "env \<Rightarrow> bool \<Rightarrow> plugin \<Rightarrow> py_exn option \<Rightarrow> plugin \<Rightarrow> event list \<Rightarrow> event list \<Rightarrow> stats \<Rightarrow> bool" where
  "attempted e fc s r s' calls pre cur =
     (list_all is_fetch_call pre
      \<and> calls = pre @ rendered fc cur (create_display e s cur)
      \<and> enabled s \<and> r = None \<and> channel_stats s' = Some cur
      \<and> (fc \<or> stats_changed (last_displayed_stats s) cur)
      \<and> (create_display e s cur = None \<longrightarrow> last_displayed_stats s' = last_displayed_stats s)
      \<and> (create_display e s cur \<noteq> None \<longrightarrow> last_displayed_stats s' = Some cur))"

text \<open>The sample scenario, step by step.\<close>

definition sample_image :: image where
  "sample_image =
     \<lparr>canvas_size = (128, 32), logo_box = ((2, 6), (19, 19)),
      texts = [((28, 1), VStr ''Test Channel''), ((36, 11), VStr ''1,234 subs''),
               ((28, 21), VStr ''56,789 views'')]\<rparr>"

definition sample_key :: string where
  "sample_key = ''youtube-stats_channel_stats''"

definition sample_fetch_calls :: "event list" where
  "sample_fetch_calls =
     [CacheGet sample_key 300,
      HttpGet ''https://www.googleapis.com/youtube/v3/channels?part=statistics,snippet&id=UC123&key=key'',
      CounterCall,
      CacheSet sample_key sample_stats 300]"

definition sample_fetched :: plugin where
  "sample_fetched =
     sample_plugin\<lparr>channel_stats := Some sample_stats,
                   cache := cache_set (\<lambda>k. None) 1000 sample_key sample_stats,
                   api_counter := 1\<rparr>"

definition sample_shown :: plugin where
  "sample_shown = sample_fetched\<lparr>last_displayed_stats := Some sample_stats\<rparr>"

definition sample_drawn :: "event list" where
  "sample_drawn =
     [ComposeCall sample_stats (Some sample_image), SetImage sample_image, UpdateDisplay,
      StoreLastDisplayed sample_stats]"

text \<open>A snapshot whose title is \<^verbatim>\<open>None\<close> (a response with \<^verbatim>\<open>"title": null\<close>).\<close>

definition untitled_stats :: stats where
  "untitled_stats = \<lparr>title = VNone, subscribers = 1, views = 2\<rparr>"

definition untitled_plugin :: plugin where
  "untitled_plugin = sample_plugin\<lparr>channel_stats := Some untitled_stats\<rparr>"

definition untitled_response :: pyval where
  "untitled_response =
     VDict [(''items'', VList [VDict
       [(''snippet'', VDict [(''title'', VNone)]),
        (''statistics'', VDict [(''subscriberCount'', VStr ''1''), (''viewCount'', VStr ''2'')])]])]"

text \<open>
  Notions used to state the properties of a fetch: the key under which the plugin
  caches, the failures of a request that reached the network (an exception of the
  transport, a body that is not JSON, a body without items, or a body whose parsing
  raises an exception that lines 174-179 catch; not a body nested too deep, whose
  \<^verbatim>\<open>RecursionError\<close> is not caught), and the places of a response that hold the two
  counts.
\<close>

definition cache_key :: "plugin \<Rightarrow> string" where
  "cache_key s = plugin_id s @ ''_channel_stats''"

definition fetch_fails :: "http_outcome \<Rightarrow> bool" where
  "fetch_fails h =
     (case h of
        GetRaises \<Rightarrow> True
      | StatusRaises \<Rightarrow> True
      | JsonRaises \<Rightarrow> True
      | JsonTooDeep \<Rightarrow> False
      | JsonBody data \<Rightarrow>
          (case parse_stats data of
             Inr None \<Rightarrow> True
           | Inr (Some st) \<Rightarrow> False
           | Inl x \<Rightarrow> caught x))"

definition count_field :: "string \<Rightarrow> pyval \<Rightarrow> py_exn + pyval" where
  "count_field name data =
     exn_bind (py_getitem data ''items'') (\<lambda>items.
     exn_bind (py_getitem0 items) (\<lambda>channel.
     exn_bind (py_getitem channel ''statistics'') (\<lambda>statistics.
       py_getitem statistics name)))"

text \<open>A count field that denotes no negative number: no minus sign in a str, no negative int or float.\<close>

fun no_minus :: "pyval \<Rightarrow> bool" where
  "no_minus (VStr s) = (CHR ''-'' \<notin> set s)"
| "no_minus (VInt i) = (0 \<le> i)"
| "no_minus (VFloat f) = (case f of Finite r \<Rightarrow> 0 \<le> r | _ \<Rightarrow> True)"
| "no_minus (VBool b) = True"
| "no_minus VNone = True"
| "no_minus (VList xs) = True"
| "no_minus (VDict kvs) = True"

definition response_no_minus :: "http_outcome \<Rightarrow> bool" where
  "response_no_minus h =
     (case h of
        JsonBody data \<Rightarrow>
          (case count_field ''subscriberCount'' data of Inr v \<Rightarrow> no_minus v | Inl x \<Rightarrow> True)
          \<and> (case count_field ''viewCount'' data of Inr v \<Rightarrow> no_minus v | Inl x \<Rightarrow> True)
      | _ \<Rightarrow> True)"

definition nonneg_stats :: "stats \<Rightarrow> bool" where
  "nonneg_stats st = (0 \<le> subscribers st \<and> 0 \<le> views st)"

definition opt_nonneg :: "stats option \<Rightarrow> bool" where
  "opt_nonneg x = (case x of None \<Rightarrow> True | Some st \<Rightarrow> nonneg_stats st)"

text \<open>The snapshots the plugin holds: the current one, the one displayed last, the cached one.\<close>

definition stored_nonneg :: "plugin \<Rightarrow> bool" where
  "stored_nonneg s =
     (opt_nonneg (channel_stats s) \<and> opt_nonneg (last_displayed_stats s)
      \<and> opt_nonneg (map_option fst (cache s (cache_key s))))"

text \<open>Responses and moments used as examples.\<close>

definition empty_items_response :: pyval where
  "empty_items_response = VDict [(''items'', VList [])]"

definition negative_response :: pyval where
  "negative_response =
     VDict [(''items'', VList [VDict
       [(''snippet'', VDict [(''title'', VStr ''Test Channel'')]),
        (''statistics'',
           VDict [(''subscriberCount'', VStr ''-5''), (''viewCount'', VStr ''56789'')])]])]"

definition negative_stats :: stats where
  "negative_stats = \<lparr>title = VStr ''Test Channel'', subscribers = - 5, views = 56789\<rparr>"

definition infinite_response :: pyval where
  "infinite_response =
     VDict [(''items'', VList [VDict
       [(''snippet'', VDict [(''title'', VStr ''Test Channel'')]),
        (''statistics'',
           VDict [(''subscriberCount'', VFloat PosInf), (''viewCount'', VStr ''56789'')])]])]"

text \<open>Twenty minutes after the sample fetch the cached entry has expired; the network is down.\<close>

definition offline_env :: env where
  "offline_env = sample_env\<lparr>now := 2200, http := GetRaises\<rparr>"

text \<open>Within the refresh interval of the sample fetch, and exactly at its end.\<close>

definition soon_env :: env where
  "soon_env = sample_env\<lparr>now := 1299\<rparr>"

definition boundary_env :: env where
  "boundary_env = sample_env\<lparr>now := 1300\<rparr>"

text \<open>
  The sample plugin after its picture was drawn and a later refresh failed: no snapshot
  is held, the one displayed last is still recorded. Then the network is back and the
  next fetch obtains the same figures again.
\<close>

definition sample_lost :: plugin where
  "sample_lost = sample_shown\<lparr>channel_stats := None\<rparr>"

definition later_env :: env where
  "later_env = sample_env\<lparr>now := 2300\<rparr>"

definition sample_refetched :: plugin where
  "sample_refetched =
     sample_lost\<lparr>channel_stats := Some sample_stats,
                 cache := cache_set (cache sample_lost) 2300 sample_key sample_stats,
                 api_counter := 2\<rparr>"







section \<open>What a fetch leaves alone\<close>

lemma fetch_frame:
  assumes "get_channel_stats e s = (r, s', calls)"
  shows "enabled s' = enabled s" and "channel_stats s' = channel_stats s"
    and "font s' = font s" and "youtube_logo s' = youtube_logo s"
    and "last_displayed_stats s' = last_displayed_stats s"
    and "list_all is_fetch_call calls"
  using assms
  by (auto simp: get_channel_stats_def call_counter_def Let_def
      split: if_splits option.splits http_outcome.splits sum.splits counter_mode.splits)

lemma update_frame:
  assumes "update e s = (r, s', calls)"
  shows "enabled s' = enabled s"
    and "font s' = font s" and "youtube_logo s' = youtube_logo s"
    and "last_displayed_stats s' = last_displayed_stats s"
    and "list_all is_fetch_call calls"
  using assms
  by (auto simp: update_def split: if_splits prod.splits sum.splits dest: fetch_frame)

lemma create_display_assets:
  "youtube_logo s' = youtube_logo s \<Longrightarrow> font s' = font s \<Longrightarrow>
   create_display e s' cs = create_display e s cs"
  by (simp add: create_display_def split: option.splits)

section \<open>Missing configuration\<close>

text \<open>
  C5. A fetch with an empty channel id or an empty API key returns \<open>None\<close> at once: the
  plugin and both collaborators are as before and no call is made at all, in particular
  no network request and no cache write.
\<close>

theorem fetch_missing_config:
  "api_key s = [] \<or> channel_id s = [] \<Longrightarrow> get_channel_stats e s = (Inr None, s, [])"
  by (auto simp: get_channel_stats_def)

theorem fetch_missing_config_witness:
  "api_key (sample_plugin\<lparr>api_key := []\<rparr>) = []
   \<and> get_channel_stats sample_env (sample_plugin\<lparr>api_key := []\<rparr>)
       = (Inr None, sample_plugin\<lparr>api_key := []\<rparr>, [])"
  using fetch_missing_config [of "sample_plugin\<lparr>api_key := []\<rparr>" sample_env]
  by simp

section \<open>The shape of a call of \<open>display\<close>\<close>

lemma update_raises:
  "update e s = (Some x, s', calls) \<Longrightarrow> channel_stats s' = channel_stats s"
  by (auto simp: update_def split: if_splits prod.splits sum.splits dest: fetch_frame)

lemma display_disabled: "\<not> enabled s \<Longrightarrow> display e fc s = (None, s, [])"
  by (simp add: display_def)

lemma display_with_stats:
  "enabled s \<Longrightarrow> channel_stats s = Some cur \<Longrightarrow> display e fc s = redraw e fc s [] cur"
  by (simp add: display_def redraw_def rendered_def split: option.splits)

lemma display_lazy:
  "enabled s \<Longrightarrow> channel_stats s = None \<Longrightarrow> update e s = (r1, s1, c1) \<Longrightarrow>
   display e fc s =
     (case r1 of
        Some x \<Rightarrow> (Some x, s1, c1)
      | None \<Rightarrow> (case channel_stats s1 of None \<Rightarrow> (None, s1, c1) | Some cur \<Rightarrow> redraw e fc s1 c1 cur))"
  by (simp add: display_def redraw_def rendered_def split: option.splits)

lemma redraw_shape:
  assumes "redraw e fc s1 c1 cur = (r, s', calls)"
  shows "r = None"
    and "channel_stats s' = channel_stats s1"
    and "\<not> fc \<and> \<not> stats_changed (last_displayed_stats s1) cur \<Longrightarrow> s' = s1 \<and> calls = c1"
    and "fc \<or> stats_changed (last_displayed_stats s1) cur \<Longrightarrow>
           calls = c1 @ rendered fc cur (create_display e s1 cur)"
    and "fc \<or> stats_changed (last_displayed_stats s1) cur \<Longrightarrow> create_display e s1 cur = None \<Longrightarrow>
           last_displayed_stats s' = last_displayed_stats s1"
    and "fc \<or> stats_changed (last_displayed_stats s1) cur \<Longrightarrow> create_display e s1 cur \<noteq> None \<Longrightarrow>
           last_displayed_stats s' = Some cur"
  using assms by (auto simp: redraw_def split: if_splits option.splits)

lemma redraw_quiet_or_attempted:
  assumes rd: "redraw e fc s1 c1 cur = (r, s', calls)"
    and pre: "list_all is_fetch_call c1"
    and en: "enabled s"
    and cs: "channel_stats s1 = Some cur"
    and ld: "last_displayed_stats s1 = last_displayed_stats s"
    and cd: "create_display e s1 cur = create_display e s cur"
  shows "quiet fc s s' calls \<or> attempted e fc s r s' calls c1 cur"
proof (cases "fc \<or> stats_changed (last_displayed_stats s1) cur")
  case True
  note sh = redraw_shape [OF rd]
  have "attempted e fc s r s' calls c1 cur"
    unfolding attempted_def
    using sh(4) [OF True] sh(5) [OF True] sh(6) [OF True] sh(1) sh(2) pre en cs ld cd True by simp
  then show ?thesis ..
next
  case False
  then have "s' = s1" "calls = c1" using redraw_shape(3) [OF rd] by blast+
  then have "quiet fc s s' calls"
    unfolding quiet_def using pre ld False by simp
  then show ?thesis ..
qed

lemma display_shape:
  assumes d: "display e fc s = (r, s', calls)"
  shows "quiet fc s s' calls \<or> (\<exists>pre cur. attempted e fc s r s' calls pre cur)"
proof (cases "enabled s")
  case False
  with d have "s' = s" "calls = []" by (simp_all add: display_disabled)
  with False have "quiet fc s s' calls" by (simp add: quiet_def)
  then show ?thesis ..
next
  case en: True
  show ?thesis
  proof (cases "channel_stats s")
    case (Some cur)
    with en d have rd: "redraw e fc s [] cur = (r, s', calls)"
      by (simp add: display_with_stats)
    have "quiet fc s s' calls \<or> attempted e fc s r s' calls [] cur"
      by (rule redraw_quiet_or_attempted [OF rd _ en Some]) simp_all
    then show ?thesis by blast
  next
    case None
    obtain r1 s1 c1 where u: "update e s = (r1, s1, c1)" by (cases "update e s") auto
    note fr = update_frame [OF u]
    have cd: "create_display e s1 cs = create_display e s cs" for cs
      by (rule create_display_assets) (rule fr)+
    note dl = display_lazy [OF en None u, of fc]
    show ?thesis
    proof (cases r1)
      case (Some x)
      with dl d have eq: "s' = s1" "calls = c1" by simp_all
      have "channel_stats s1 = channel_stats s" using u Some by (auto dest: update_raises)
      with None eq fr(4) fr(5) have "quiet fc s s' calls" by (simp add: quiet_def)
      then show ?thesis ..
    next
      case r1: None
      show ?thesis
      proof (cases "channel_stats s1")
        case None
        with dl d r1 have eq: "s' = s1" "calls = c1" by simp_all
        with None fr(4) fr(5) have "quiet fc s s' calls" by (simp add: quiet_def)
        then show ?thesis ..
      next
        case (Some cur)
        with dl d r1 have rd: "redraw e fc s1 c1 cur = (r, s', calls)" by simp
        have "quiet fc s s' calls \<or> attempted e fc s r s' calls c1 cur"
          by (rule redraw_quiet_or_attempted [OF rd fr(5) en Some fr(4) cd])
        then show ?thesis by blast
      qed
    qed
  qed
qed

lemma fetch_call_not_update: "is_fetch_call a \<Longrightarrow> \<not> is_update_display a"
  by (cases a) simp_all

lemma fetch_calls_only:
  assumes "list_all is_fetch_call cs"
  shows "StoreLastDisplayed st \<notin> set cs" and "ComposeCall st res \<notin> set cs"
    and "SetImage img \<notin> set cs" and "UpdateDisplay \<notin> set cs" and "SurfaceClear \<notin> set cs"
    and "filter is_update_display cs = []"
  using assms by (induction cs) (auto simp: fetch_call_not_update)

lemma rendered_eq:
  "rendered fc cur res =
     (if fc then [SurfaceClear] else []) @ ComposeCall cur res # handed_off cur res"
  by (simp add: rendered_def handed_off_def split: option.splits)

lemma rendered_updates: "length (filter is_update_display (rendered fc cur res)) \<le> 1"
  by (simp add: rendered_def split: option.splits)

lemma display_updates_once:
  assumes "display e fc s = (r, s', calls)"
  shows "length (filter is_update_display calls) \<le> 1"
  using display_shape [OF assms]
proof
  assume "quiet fc s s' calls"
  then show ?thesis by (simp add: quiet_def fetch_calls_only(6))
next
  assume "\<exists>pre cur. attempted e fc s r s' calls pre cur"
  then obtain pre cur where a: "attempted e fc s r s' calls pre cur" by blast
  then have "calls = pre @ rendered fc cur (create_display e s cur)" "list_all is_fetch_call pre"
    by (simp_all add: attempted_def)
  then show ?thesis using rendered_updates by (simp add: fetch_calls_only(6))
qed

lemma attempted_absent:
  assumes a: "attempted e fc s r s' calls pre cur" and n: "create_display e s cur = None"
  shows "calls = pre @ (if fc then [SurfaceClear] else []) @ [ComposeCall cur None]"
    and "last_displayed_stats s' = last_displayed_stats s"
  using a n by (simp_all add: attempted_def rendered_def)

lemma attempted_present:
  assumes a: "attempted e fc s r s' calls pre cur" and n: "create_display e s cur = Some img"
  shows "calls = (pre @ (if fc then [SurfaceClear] else []))
                   @ [ComposeCall cur (Some img), SetImage img, UpdateDisplay, StoreLastDisplayed cur]"
    and "last_displayed_stats s' = Some cur"
  using a n by (simp_all add: attempted_def rendered_def)

text \<open>
  A call of \<open>display\<close> never changes \<^verbatim>\<open>enabled\<close> and never replaces a snapshot that was
  held at entry; hence a plugin that holds a snapshot is enabled, in every state it can
  reach.
\<close>

lemma redraw_enabled:
  "redraw e fc s1 c1 cur = (r, s', calls) \<Longrightarrow> enabled s' = enabled s1"
  by (auto simp: redraw_def split: if_splits option.splits)

lemma display_enabled:
  assumes d: "display e fc s = (r, s', calls)"
  shows "enabled s' = enabled s"
proof (cases "enabled s")
  case False
  with d show ?thesis by (simp add: display_disabled)
next
  case en: True
  show ?thesis
  proof (cases "channel_stats s")
    case (Some cur)
    with en d have "redraw e fc s [] cur = (r, s', calls)" by (simp add: display_with_stats)
    then show ?thesis by (rule redraw_enabled)
  next
    case None
    obtain r1 s1 c1 where u: "update e s = (r1, s1, c1)" by (cases "update e s") auto
    note fr = update_frame(1) [OF u]
    note dl = display_lazy [OF en None u, of fc]
    show ?thesis
    proof (cases r1)
      case (Some x)
      with dl d fr show ?thesis by simp
    next
      case r1: None
      show ?thesis
      proof (cases "channel_stats s1")
        case None
        with dl d r1 fr show ?thesis by simp
      next
        case (Some cur)
        with dl d r1 have "redraw e fc s1 c1 cur = (r, s', calls)" by simp
        then have "enabled s' = enabled s1" by (rule redraw_enabled)
        with fr show ?thesis by simp
      qed
    qed
  qed
qed

lemma display_keeps_snapshot:
  assumes d: "display e fc s = (r, s', calls)" and c: "channel_stats s = Some c"
  shows "channel_stats s' = Some c"
proof (cases "enabled s")
  case False
  with d c show ?thesis by (simp add: display_disabled)
next
  case True
  with d c have "redraw e fc s [] c = (r, s', calls)" by (simp add: display_with_stats)
  from redraw_shape(2) [OF this] c show ?thesis by simp
qed

lemma reachable_enabled:
  "reachable s \<Longrightarrow> channel_stats s \<noteq> None \<Longrightarrow> enabled s"
proof (induction rule: reachable.induct)
  case (constructed s)
  then show ?case by simp
next
  case (after_update s e r s' calls)
  show ?case
  proof (cases "enabled s")
    case True
    with update_frame(1) [OF after_update.hyps(2)] show ?thesis by simp
  next
    case False
    with after_update.hyps(2) have "s' = s" by (simp add: update_def)
    with after_update show ?thesis by simp
  qed
next
  case (after_display s e fc r s' calls)
  show ?case
  proof (cases "enabled s")
    case True
    with display_enabled [OF after_display.hyps(2)] show ?thesis by simp
  next
    case False
    with after_display.hyps(2) have "s' = s" by (simp add: display_disabled)
    with after_display show ?thesis by simp
  qed
next
  case (collaborators s c n)
  then show ?case by simp
qed

section \<open>The sample scenario\<close>

lemma sample_parse: "parse_stats sample_response = Inr (Some sample_stats)"
  by (simp add: parse_stats_def sample_response_def sample_stats_def exn_bind_def int_of_str_def
      py_strip_def py_isspace_def is_digit_def digits_value_def digit_val_def)

lemma sample_format:
  "format_thousands 1234 = ''1,234''" "format_thousands 56789 = ''56,789''"
  by (simp_all add: format_thousands_def)

lemma sample_compose:
  "create_display sample_env sample_plugin sample_stats = Some sample_image"
  by (simp add: create_display_def compose_image_def sample_plugin_def sample_env_def
      sample_stats_def sample_image_def truncate_name_def draw_centered_def sample_format)

lemma sample_fetch:
  "get_channel_stats sample_env sample_plugin =
     (Inr (Some sample_stats),
      sample_plugin\<lparr>cache := cache_set (\<lambda>k. None) 1000 sample_key sample_stats,
                    api_counter := 1\<rparr>,
      sample_fetch_calls)"
  by (simp add: get_channel_stats_def sample_parse cache_get_def fetch_url_def call_counter_def
      sample_plugin_def sample_env_def sample_key_def sample_fetch_calls_def Let_def)

lemma sample_update: "update sample_env sample_plugin = (None, sample_fetched, sample_fetch_calls)"
  by (simp add: update_def sample_fetch sample_fetched_def) (simp add: sample_plugin_def)

lemma sample_compose_later:
  "create_display sample_env sample_fetched sample_stats = Some sample_image"
  "create_display sample_env sample_shown sample_stats = Some sample_image"
proof -
  have "create_display sample_env sample_fetched sample_stats
          = create_display sample_env sample_plugin sample_stats"
    by (rule create_display_assets) (simp_all add: sample_fetched_def)
  then show "create_display sample_env sample_fetched sample_stats = Some sample_image"
    by (simp add: sample_compose)
  have "create_display sample_env sample_shown sample_stats
          = create_display sample_env sample_plugin sample_stats"
    by (rule create_display_assets) (simp_all add: sample_shown_def sample_fetched_def)
  then show "create_display sample_env sample_shown sample_stats = Some sample_image"
    by (simp add: sample_compose)
qed

lemma sample_display:
  "display sample_env False sample_plugin = (None, sample_shown, sample_fetch_calls @ sample_drawn)"
  "display sample_env True sample_plugin
     = (None, sample_shown, sample_fetch_calls @ SurfaceClear # sample_drawn)"
proof -
  have en: "enabled sample_plugin" and no: "channel_stats sample_plugin = None"
    by (simp_all add: sample_plugin_def)
  have got: "channel_stats sample_fetched = Some sample_stats"
    and last: "last_displayed_stats sample_fetched = None"
    by (simp_all add: sample_fetched_def sample_plugin_def)
  show "display sample_env False sample_plugin
          = (None, sample_shown, sample_fetch_calls @ sample_drawn)"
    using display_lazy [OF en no sample_update, of False] got last sample_compose_later(1)
    by (simp add: redraw_def rendered_def stats_changed_def sample_shown_def sample_drawn_def)
  show "display sample_env True sample_plugin
          = (None, sample_shown, sample_fetch_calls @ SurfaceClear # sample_drawn)"
    using display_lazy [OF en no sample_update, of True] got last sample_compose_later(1)
    by (simp add: redraw_def rendered_def stats_changed_def sample_shown_def sample_drawn_def)
qed

lemma untitled_compose: "create_display e untitled_plugin untitled_stats = None"
  by (simp add: create_display_def compose_image_def untitled_plugin_def untitled_stats_def
      sample_plugin_def truncate_name_def Let_def)


section \<open>Redraw suppression\<close>

lemma display_skips:
  assumes cur: "channel_stats s1 = Some cur"
    and unchanged: "\<not> stats_changed (last_displayed_stats s1) cur"
  shows "display e False s1 = (None, s1, [])"
proof (cases "enabled s1")
  case True
  then show ?thesis using cur unchanged by (simp add: display_with_stats redraw_def)
next
  case False
  then show ?thesis by (simp add: display_disabled)
qed

text \<open>
  C1. Take two calls of \<open>display\<close> without \<open>force_clear\<close>, the second one from any
  state \<open>sb\<close> (the state \<open>s1\<close> the first call ended in, or what calls of \<open>update\<close> made
  of it, which may have failed and left no snapshot). If the snapshot that the second
  call compares on lines 262-267, the one held at entry or else the one its fetch on
  line 257 obtains, has a title, a subscriber count and a view count equal to those of
  the snapshot displayed last, then the second call composes nothing, hands off no image
  and does not update the surface: its only calls are those of the fetch, if there was
  one, and the record of the snapshot displayed last is as before. With a snapshot held
  at entry it makes no call at all and leaves the plugin as it was. So the surface is
  updated at most once across the two calls.
\<close>

theorem display_unchanged_no_redraw:
  assumes first: "display e1 False s0 = (r1, s1, calls1)"
    and second: "display e2 False sb = (r2, s2, calls2)"
    and cur: "channel_stats s2 = Some cur"
    and shown: "last_displayed_stats sb = Some shown"
    and same: "py_eq (title shown) (title cur) \<and> subscribers shown = subscribers cur
               \<and> views shown = views cur"
  shows "list_all is_fetch_call calls2
         \<and> (\<forall>st res. ComposeCall st res \<notin> set calls2)
         \<and> (\<forall>img. SetImage img \<notin> set calls2)
         \<and> UpdateDisplay \<notin> set calls2
         \<and> last_displayed_stats s2 = last_displayed_stats sb
         \<and> (channel_stats sb \<noteq> None \<longrightarrow> r2 = None \<and> s2 = sb \<and> calls2 = [])
         \<and> length (filter is_update_display (calls1 @ calls2)) \<le> 1"
proof -
  have unchanged: "\<not> stats_changed (last_displayed_stats sb) cur"
    using shown same by (simp add: stats_changed_def py_ne_def)
  have q: "quiet False sb s2 calls2"
    using display_shape [OF second]
  proof
    assume "quiet False sb s2 calls2"
    then show ?thesis .
  next
    assume "\<exists>pre c. attempted e2 False sb r2 s2 calls2 pre c"
    then obtain pre c where a: "attempted e2 False sb r2 s2 calls2 pre c" by blast
    with cur have "c = cur" by (simp add: attempted_def)
    with a have "stats_changed (last_displayed_stats sb) cur" by (simp add: attempted_def)
    with unchanged show ?thesis by simp
  qed
  then have f: "list_all is_fetch_call calls2"
    and l: "last_displayed_stats s2 = last_displayed_stats sb"
    by (simp_all add: quiet_def)
  have entry: "r2 = None \<and> s2 = sb \<and> calls2 = []" if h: "channel_stats sb \<noteq> None"
  proof -
    from h obtain c0 where c0: "channel_stats sb = Some c0" by auto
    from display_keeps_snapshot [OF second c0] cur have "c0 = cur" by simp
    with c0 have "channel_stats sb = Some cur" by simp
    from display_skips [OF this unchanged, of e2] second show ?thesis by simp
  qed
  have once: "length (filter is_update_display (calls1 @ calls2)) \<le> 1"
    using display_updates_once [OF first] fetch_calls_only(6) [OF f] by simp
  show ?thesis
  proof (intro conjI impI allI)
    show "list_all is_fetch_call calls2" by (rule f)
    show "ComposeCall st res \<notin> set calls2" for st res by (rule fetch_calls_only(2) [OF f])
    show "SetImage img \<notin> set calls2" for img by (rule fetch_calls_only(3) [OF f])
    show "UpdateDisplay \<notin> set calls2" by (rule fetch_calls_only(4) [OF f])
    show "last_displayed_stats s2 = last_displayed_stats sb" by (rule l)
    show "r2 = None" if "channel_stats sb \<noteq> None" by (rule entry [OF that, THEN conjunct1])
    show "s2 = sb" if "channel_stats sb \<noteq> None"
      by (rule entry [OF that, THEN conjunct2, THEN conjunct1])
    show "calls2 = []" if "channel_stats sb \<noteq> None"
      by (rule entry [OF that, THEN conjunct2, THEN conjunct2])
    show "length (filter is_update_display (calls1 @ calls2)) \<le> 1" by (rule once)
  qed
qed

lemma sample_lost_update:
  "update offline_env sample_shown
     = (None, sample_lost, [CacheGet sample_key 300, HttpGet (fetch_url sample_shown)])"
proof -
  have g: "get_channel_stats offline_env sample_shown
             = (Inr None, sample_shown,
                [CacheGet sample_key 300, HttpGet (fetch_url sample_shown)])"
    by (simp add: get_channel_stats_def cache_get_def cache_set_def sample_shown_def
        sample_fetched_def sample_plugin_def offline_env_def sample_env_def sample_key_def Let_def)
  have en: "enabled sample_shown"
    by (simp add: sample_shown_def sample_fetched_def sample_plugin_def)
  show ?thesis using en by (simp add: update_def g sample_lost_def)
qed

lemma sample_refetch:
  "display later_env False sample_lost = (None, sample_refetched, sample_fetch_calls)"
proof -
  have en: "enabled sample_lost" and no: "channel_stats sample_lost = None"
    and last: "last_displayed_stats sample_lost = Some sample_stats"
    by (simp_all add: sample_lost_def sample_shown_def sample_fetched_def sample_plugin_def)
  have g: "get_channel_stats later_env sample_lost =
     (Inr (Some sample_stats),
      sample_lost\<lparr>cache := cache_set (cache sample_lost) 2300 sample_key sample_stats,
                  api_counter := 2\<rparr>,
      sample_fetch_calls)"
    by (simp add: get_channel_stats_def sample_parse cache_get_def cache_set_def fetch_url_def
        call_counter_def sample_lost_def sample_shown_def sample_fetched_def sample_plugin_def
        later_env_def sample_env_def sample_key_def sample_fetch_calls_def Let_def)
  have u: "update later_env sample_lost = (None, sample_refetched, sample_fetch_calls)"
    using en by (simp add: update_def g sample_refetched_def)
  have got: "channel_stats sample_refetched = Some sample_stats"
    and last': "last_displayed_stats sample_refetched = Some sample_stats"
    by (simp_all add: sample_refetched_def sample_lost_def sample_shown_def sample_fetched_def)
  have same: "\<not> stats_changed (Some sample_stats) sample_stats"
    by (simp add: stats_changed_def py_ne_def sample_stats_def)
  show ?thesis
    using display_lazy [OF en no u, of False] got last' same
    by (simp add: redraw_def)
qed

theorem display_unchanged_no_redraw_witness:
  "display sample_env False sample_plugin = (None, sample_shown, sample_fetch_calls @ sample_drawn)
   \<and> update offline_env sample_shown
       = (None, sample_lost, [CacheGet sample_key 300, HttpGet (fetch_url sample_shown)])
   \<and> channel_stats sample_lost = None
   \<and> last_displayed_stats sample_lost = Some sample_stats
   \<and> display later_env False sample_lost = (None, sample_refetched, sample_fetch_calls)
   \<and> channel_stats sample_refetched = Some sample_stats
   \<and> list_all is_fetch_call sample_fetch_calls
   \<and> UpdateDisplay \<notin> set sample_fetch_calls
   \<and> last_displayed_stats sample_refetched = last_displayed_stats sample_lost
   \<and> length (filter is_update_display ((sample_fetch_calls @ sample_drawn) @ sample_fetch_calls))
       \<le> 1
   \<and> channel_stats sample_shown = Some sample_stats
   \<and> last_displayed_stats sample_shown = Some sample_stats
   \<and> display sample_env False sample_shown = (None, sample_shown, [])"
proof -
  have no: "channel_stats sample_lost = None"
    and shown: "last_displayed_stats sample_lost = Some sample_stats"
    by (simp_all add: sample_lost_def sample_shown_def sample_fetched_def)
  have cur: "channel_stats sample_refetched = Some sample_stats"
    by (simp add: sample_refetched_def)
  have cur': "channel_stats sample_shown = Some sample_stats"
    and shown': "last_displayed_stats sample_shown = Some sample_stats"
    by (simp_all add: sample_shown_def sample_fetched_def)
  have same: "py_eq (title sample_stats) (title sample_stats)
              \<and> subscribers sample_stats = subscribers sample_stats
              \<and> views sample_stats = views sample_stats"
    by (simp add: sample_stats_def)
  obtain r2 s2 calls2 where d: "display sample_env False sample_shown = (r2, s2, calls2)"
    by (cases "display sample_env False sample_shown") auto
  have cur2: "channel_stats s2 = Some sample_stats"
    by (rule display_keeps_snapshot [OF d cur'])
  have direct: "display sample_env False sample_shown = (None, sample_shown, [])"
    using display_unchanged_no_redraw [OF sample_display(1) d cur2 shown' same] d cur' by simp
  show ?thesis
    using display_unchanged_no_redraw [OF sample_display(1) sample_refetch cur shown same]
      sample_display(1) sample_lost_update sample_refetch no shown cur cur' shown' direct
    by simp
qed

text \<open>
  The same bound without looking at the snapshot displayed last: when the title held at
  the second call is a str, two consecutive calls without \<open>force_clear\<close> update the
  surface at most once, whatever the plugin was like before the first.
\<close>

lemma display_twice_updates_once:
  assumes first: "display e1 False s0 = (r1, s1, calls1)"
    and second: "display e2 False s1 = (r2, s2, calls2)"
    and str: "\<And>cur. channel_stats s1 = Some cur \<Longrightarrow> \<exists>name. title cur = VStr name"
  shows "length (filter is_update_display (calls1 @ calls2)) \<le> 1"
  using display_shape [OF first]
proof
  assume "quiet False s0 s1 calls1"
  then have "filter is_update_display calls1 = []"
    by (simp add: quiet_def fetch_calls_only(6))
  with display_updates_once [OF second] show ?thesis by simp
next
  assume "\<exists>pre cur. attempted e1 False s0 r1 s1 calls1 pre cur"
  then obtain pre cur where a: "attempted e1 False s0 r1 s1 calls1 pre cur" by blast
  then have f: "list_all is_fetch_call pre" and cs: "channel_stats s1 = Some cur"
    by (simp_all add: attempted_def)
  show ?thesis
  proof (cases "create_display e1 s0 cur")
    case None
    from attempted_absent(1) [OF a None] have "filter is_update_display calls1 = []"
      by (simp add: fetch_calls_only(6) [OF f])
    with display_updates_once [OF second] show ?thesis by simp
  next
    case (Some img)
    from attempted_present(2) [OF a Some] have l: "last_displayed_stats s1 = Some cur" .
    obtain name where "title cur = VStr name" using str [OF cs] by blast
    then have "\<not> stats_changed (last_displayed_stats s1) cur"
      by (simp add: l stats_changed_def py_ne_def)
    from display_skips [OF cs this, of e2] second have "calls2 = []" by simp
    with display_updates_once [OF first] show ?thesis by simp
  qed
qed

section \<open>Forced redraw\<close>

text \<open>
  C2, as amended. Take a call of \<open>display\<close> with \<open>force_clear\<close> on an enabled plugin that
  ends with a snapshot stored (one was there, or the fetch of this call obtained one).
  Whether or not that snapshot equals the one displayed last, the calls are: the fetch
  calls if any, then the clear of the surface, then one composition of that snapshot,
  and, when the composition gave an image, the hand-off of the image, the update of the
  surface and the record of the snapshot, in that order; when it gave none, nothing
  follows the composition.
\<close>

theorem forced_display_sequence:
  assumes en: "enabled s" and d: "display e True s = (r, s', calls)"
    and cur: "channel_stats s' = Some cur"
  shows "\<exists>pre. list_all is_fetch_call pre
           \<and> calls = pre @ [SurfaceClear, ComposeCall cur (create_display e s cur)]
                        @ handed_off cur (create_display e s cur)"
  using display_shape [OF d]
proof
  assume "quiet True s s' calls"
  with en cur show ?thesis by (simp add: quiet_def)
next
  assume "\<exists>pre c. attempted e True s r s' calls pre c"
  then obtain pre c where a: "attempted e True s r s' calls pre c" by blast
  with cur have c: "c = cur" by (simp add: attempted_def)
  from a c have "list_all is_fetch_call pre
      \<and> calls = pre @ [SurfaceClear, ComposeCall cur (create_display e s cur)]
                        @ handed_off cur (create_display e s cur)"
    by (simp add: attempted_def rendered_eq)
  then show ?thesis ..
qed

theorem forced_display_sequence_witness:
  "enabled sample_plugin
   \<and> display sample_env True sample_plugin
       = (None, sample_shown, sample_fetch_calls @ SurfaceClear # sample_drawn)
   \<and> channel_stats sample_shown = Some sample_stats
   \<and> (\<exists>pre. list_all is_fetch_call pre
          \<and> sample_fetch_calls @ SurfaceClear # sample_drawn
              = pre @ [SurfaceClear,
                       ComposeCall sample_stats (create_display sample_env sample_plugin sample_stats)]
                    @ handed_off sample_stats (create_display sample_env sample_plugin sample_stats))"
proof -
  have en: "enabled sample_plugin" by (simp add: sample_plugin_def)
  have cur: "channel_stats sample_shown = Some sample_stats"
    by (simp add: sample_shown_def sample_fetched_def)
  show ?thesis
    using forced_display_sequence [OF en sample_display(2) cur] en sample_display(2) cur
    by simp
qed

text \<open>
  The claim as stated fails: an enabled plugin that cannot fetch (no API key) makes no
  call at all under \<open>force_clear\<close>, and one whose snapshot cannot be composed (its
  title is \<^verbatim>\<open>None\<close>) clears the surface and never updates it.
\<close>

theorem forced_display_counterexample:
  "enabled (sample_plugin\<lparr>api_key := []\<rparr>)
   \<and> snd (snd (display sample_env True (sample_plugin\<lparr>api_key := []\<rparr>))) = []
   \<and> enabled untitled_plugin
   \<and> snd (snd (display sample_env True untitled_plugin))
       = [SurfaceClear, ComposeCall untitled_stats None]
   \<and> UpdateDisplay \<notin> set (snd (snd (display sample_env True untitled_plugin)))"
proof -
  have en: "enabled (sample_plugin\<lparr>api_key := []\<rparr>)"
    and no: "channel_stats (sample_plugin\<lparr>api_key := []\<rparr>) = None"
    by (simp_all add: sample_plugin_def)
  have f: "get_channel_stats sample_env (sample_plugin\<lparr>api_key := []\<rparr>)
             = (Inr None, sample_plugin\<lparr>api_key := []\<rparr>, [])"
    by (simp add: get_channel_stats_def)
  have u: "update sample_env (sample_plugin\<lparr>api_key := []\<rparr>)
             = (None, sample_plugin\<lparr>api_key := [], channel_stats := None\<rparr>, [])"
    using en by (simp add: update_def f)
  have a: "snd (snd (display sample_env True (sample_plugin\<lparr>api_key := []\<rparr>))) = []"
    using display_lazy [OF en no u, of True] by simp
  have en': "enabled untitled_plugin"
    and cs: "channel_stats untitled_plugin = Some untitled_stats"
    by (simp_all add: untitled_plugin_def sample_plugin_def)
  have b: "snd (snd (display sample_env True untitled_plugin))
             = [SurfaceClear, ComposeCall untitled_stats None]"
    using display_with_stats [OF en' cs, of sample_env True]
    by (simp add: redraw_def rendered_def untitled_compose)
  show ?thesis using en a en' b by simp
qed

text \<open>
  C10. Take a call of \<open>display\<close> with \<open>force_clear\<close> on a plugin in a state it can
  reach, with a snapshot present when line 259 is reached (held at entry, or obtained by
  the fetch on line 257). Before the clear of the surface there are fetch calls only,
  none at all when the snapshot was held at entry; the composition comes right after
  the clear. If the composition gives no image, the call ends there: the surface has
  been cleared, it receives no image and no update, and the snapshot displayed last is
  as before (the clear is not taken back).
\<close>

theorem forced_display_clears_first:
  assumes reach: "reachable s" and d: "display e True s = (r, s', calls)"
    and cur: "channel_stats s' = Some cur"
  shows "\<exists>pre. list_all is_fetch_call pre
           \<and> (channel_stats s \<noteq> None \<longrightarrow> pre = [])
           \<and> r = None
           \<and> calls = pre @ SurfaceClear # ComposeCall cur (create_display e s cur)
                        # handed_off cur (create_display e s cur)
           \<and> (create_display e s cur = None \<longrightarrow>
                calls = pre @ [SurfaceClear, ComposeCall cur None]
                \<and> UpdateDisplay \<notin> set calls \<and> (\<forall>img. SetImage img \<notin> set calls)
                \<and> last_displayed_stats s' = last_displayed_stats s)"
proof -
  have en: "enabled s"
  proof (rule ccontr)
    assume n: "\<not> enabled s"
    with d have "s' = s" by (simp add: display_disabled)
    with cur have "channel_stats s \<noteq> None" by simp
    with reach n show False by (auto dest: reachable_enabled)
  qed
  from display_shape [OF d] have "\<exists>pre c. attempted e True s r s' calls pre c"
    using en cur by (auto simp: quiet_def)
  then obtain pre c where a: "attempted e True s r s' calls pre c" by blast
  with cur have c: "c = cur" by (simp add: attempted_def)
  from a c have f: "list_all is_fetch_call pre" and r: "r = None"
    and calls: "calls = pre @ SurfaceClear # ComposeCall cur (create_display e s cur)
                  # handed_off cur (create_display e s cur)"
    by (simp_all add: attempted_def rendered_eq)
  have entry: "pre = []" if h: "channel_stats s \<noteq> None"
  proof -
    from h obtain c0 where c0: "channel_stats s = Some c0" by auto
    from display_keeps_snapshot [OF d c0] cur have "c0 = cur" by simp
    with en d c0 have "redraw e True s [] cur = (r, s', calls)" by (simp add: display_with_stats)
    from redraw_shape(4) [OF this] have "calls = rendered True cur (create_display e s cur)"
      by simp
    with calls show ?thesis by (simp add: rendered_eq)
  qed
  have absent: "calls = pre @ [SurfaceClear, ComposeCall cur None]
                \<and> UpdateDisplay \<notin> set calls \<and> (\<forall>img. SetImage img \<notin> set calls)
                \<and> last_displayed_stats s' = last_displayed_stats s"
    if n: "create_display e s cur = None"
  proof -
    from a c have a': "attempted e True s r s' calls pre cur" by simp
    have 1: "calls = pre @ [SurfaceClear, ComposeCall cur None]"
      using attempted_absent(1) [OF a' n] by simp
    have 2: "last_displayed_stats s' = last_displayed_stats s"
      by (rule attempted_absent(2) [OF a' n])
    have 3: "UpdateDisplay \<notin> set calls" using 1 fetch_calls_only(4) [OF f] by simp
    have 4: "\<forall>img. SetImage img \<notin> set calls" using 1 fetch_calls_only(3) [OF f] by simp
    from 1 2 3 4 show ?thesis by simp
  qed
  have "list_all is_fetch_call pre
           \<and> (channel_stats s \<noteq> None \<longrightarrow> pre = [])
           \<and> r = None
           \<and> calls = pre @ SurfaceClear # ComposeCall cur (create_display e s cur)
                        # handed_off cur (create_display e s cur)
           \<and> (create_display e s cur = None \<longrightarrow>
                calls = pre @ [SurfaceClear, ComposeCall cur None]
                \<and> UpdateDisplay \<notin> set calls \<and> (\<forall>img. SetImage img \<notin> set calls)
                \<and> last_displayed_stats s' = last_displayed_stats s)"
  proof (intro conjI impI)
    show "list_all is_fetch_call pre" by (rule f)
    show "pre = []" if "channel_stats s \<noteq> None" using that by (rule entry)
    show "r = None" by (rule r)
    show "calls = pre @ SurfaceClear # ComposeCall cur (create_display e s cur)
                        # handed_off cur (create_display e s cur)" by (rule calls)
    show "calls = pre @ [SurfaceClear, ComposeCall cur None]"
      if "create_display e s cur = None" by (rule absent [OF that, THEN conjunct1])
    show "UpdateDisplay \<notin> set calls"
      if "create_display e s cur = None"
      by (rule absent [OF that, THEN conjunct2, THEN conjunct1])
    show "\<forall>img. SetImage img \<notin> set calls"
      if "create_display e s cur = None"
      by (rule absent [OF that, THEN conjunct2, THEN conjunct2, THEN conjunct1])
    show "last_displayed_stats s' = last_displayed_stats s"
      if "create_display e s cur = None"
      by (rule absent [OF that, THEN conjunct2, THEN conjunct2, THEN conjunct2])
  qed
  then show ?thesis ..
qed

lemma untitled_parse: "parse_stats untitled_response = Inr (Some untitled_stats)"
  by (simp add: parse_stats_def untitled_response_def untitled_stats_def exn_bind_def int_of_str_def
      py_strip_def py_isspace_def is_digit_def digits_value_def digit_val_def)

lemma untitled_reachable: "reachable untitled_plugin"
proof -
  have init: "reachable sample_plugin"
    by (rule reachable.constructed) (simp_all add: sample_plugin_def)
  have g: "get_channel_stats (sample_env\<lparr>http := JsonBody untitled_response\<rparr>) sample_plugin =
     (Inr (Some untitled_stats),
      sample_plugin\<lparr>cache := cache_set (\<lambda>k. None) 1000 sample_key untitled_stats,
                    api_counter := 1\<rparr>,
      [CacheGet sample_key 300, HttpGet (fetch_url sample_plugin), CounterCall,
       CacheSet sample_key untitled_stats 300])"
    by (simp add: get_channel_stats_def untitled_parse cache_get_def call_counter_def
        sample_plugin_def sample_env_def sample_key_def Let_def)
  have u: "update (sample_env\<lparr>http := JsonBody untitled_response\<rparr>) sample_plugin =
     (None,
      sample_plugin\<lparr>cache := cache_set (\<lambda>k. None) 1000 sample_key untitled_stats,
                    api_counter := 1, channel_stats := Some untitled_stats\<rparr>,
      [CacheGet sample_key 300, HttpGet (fetch_url sample_plugin), CounterCall,
       CacheSet sample_key untitled_stats 300])"
    by (simp add: update_def g) (simp add: sample_plugin_def)
  have "reachable
          ((sample_plugin\<lparr>cache := cache_set (\<lambda>k. None) 1000 sample_key untitled_stats,
                          api_counter := 1, channel_stats := Some untitled_stats\<rparr>)
             \<lparr>cache := (\<lambda>k. None), api_counter := 0\<rparr>)"
    by (rule reachable.collaborators) (rule reachable.after_update [OF init u])
  then show ?thesis by (simp add: untitled_plugin_def sample_plugin_def)
qed

theorem forced_display_clears_first_witness:
  "reachable untitled_plugin
   \<and> display sample_env True untitled_plugin
       = (None, untitled_plugin, [SurfaceClear, ComposeCall untitled_stats None])
   \<and> channel_stats untitled_plugin = Some untitled_stats
   \<and> create_display sample_env untitled_plugin untitled_stats = None
   \<and> (\<exists>pre. list_all is_fetch_call pre \<and> pre = []
          \<and> [SurfaceClear, ComposeCall untitled_stats None]
              = pre @ [SurfaceClear, ComposeCall untitled_stats None])
   \<and> UpdateDisplay \<notin> set [SurfaceClear, ComposeCall untitled_stats None]
   \<and> (\<forall>img. SetImage img \<notin> set [SurfaceClear, ComposeCall untitled_stats None])"
proof -
  have en: "enabled untitled_plugin"
    and cs: "channel_stats untitled_plugin = Some untitled_stats"
    by (simp_all add: untitled_plugin_def sample_plugin_def)
  have d: "display sample_env True untitled_plugin
             = (None, untitled_plugin, [SurfaceClear, ComposeCall untitled_stats None])"
    using display_with_stats [OF en cs, of sample_env True]
    by (simp add: redraw_def rendered_def untitled_compose)
  show ?thesis
    using forced_display_clears_first [OF untitled_reachable d cs] untitled_reachable d cs
      untitled_compose [of sample_env]
    by (simp add: handed_off_def)
qed

section \<open>When the displayed snapshot is recorded\<close>

text \<open>
  C7. In every call of \<open>display\<close>: the assignment to \<^verbatim>\<open>last_displayed_stats\<close> happens
  only as the last step, right after a composition that gave an image, the hand-off of
  that image and the update of the surface; without that assignment the attribute keeps
  its value; and whenever a composition gives no image, there is no hand-off and no
  update, and the attribute keeps its value.
\<close>

theorem last_displayed_after_handoff:
  assumes d: "display e fc s = (r, s', calls)"
  shows "(\<forall>st. StoreLastDisplayed st \<in> set calls \<longrightarrow>
            (\<exists>pre img. calls = pre @ [ComposeCall st (Some img), SetImage img, UpdateDisplay,
                                       StoreLastDisplayed st]
                       \<and> create_display e s st = Some img \<and> last_displayed_stats s' = Some st))
       \<and> ((\<forall>st. StoreLastDisplayed st \<notin> set calls) \<longrightarrow>
            last_displayed_stats s' = last_displayed_stats s)
       \<and> (\<forall>st. ComposeCall st None \<in> set calls \<longrightarrow>
            create_display e s st = None \<and> (\<forall>img. SetImage img \<notin> set calls)
            \<and> UpdateDisplay \<notin> set calls \<and> (\<forall>st'. StoreLastDisplayed st' \<notin> set calls)
            \<and> last_displayed_stats s' = last_displayed_stats s)"
  using display_shape [OF d]
proof
  assume q: "quiet fc s s' calls"
  then have f: "list_all is_fetch_call calls" and l: "last_displayed_stats s' = last_displayed_stats s"
    by (simp_all add: quiet_def)
  show ?thesis using fetch_calls_only [OF f] l by simp
next
  assume "\<exists>pre cur. attempted e fc s r s' calls pre cur"
  then obtain pre cur where a: "attempted e fc s r s' calls pre cur" by blast
  then have f: "list_all is_fetch_call pre" by (simp add: attempted_def)
  note no = fetch_calls_only [OF f]
  show ?thesis
  proof (cases "create_display e s cur")
    case None
    note ab = attempted_absent [OF a None]
    show ?thesis using ab no None by (auto split: if_splits)
  next
    case (Some img)
    note pr = attempted_present [OF a Some]
    have one: "\<exists>p i. calls = p @ [ComposeCall cur (Some i), SetImage i, UpdateDisplay,
                                       StoreLastDisplayed cur]
                       \<and> create_display e s cur = Some i \<and> last_displayed_stats s' = Some cur"
      using pr Some by blast
    have mem: "StoreLastDisplayed st \<in> set calls \<Longrightarrow> st = cur" for st
      using pr(1) no by (auto split: if_splits)
    have in_calls: "StoreLastDisplayed cur \<in> set calls" using pr(1) by simp
    have nocomp: "ComposeCall st None \<notin> set calls" for st
      using pr(1) no by (auto split: if_splits)
    show ?thesis using one mem in_calls nocomp by blast
  qed
qed

theorem last_displayed_after_handoff_witness:
  "display sample_env False sample_plugin = (None, sample_shown, sample_fetch_calls @ sample_drawn)
   \<and> StoreLastDisplayed sample_stats \<in> set (sample_fetch_calls @ sample_drawn)
   \<and> (\<exists>pre img. sample_fetch_calls @ sample_drawn
                   = pre @ [ComposeCall sample_stats (Some img), SetImage img, UpdateDisplay,
                            StoreLastDisplayed sample_stats]
                 \<and> create_display sample_env sample_plugin sample_stats = Some img
                 \<and> last_displayed_stats sample_shown = Some sample_stats)
   \<and> ComposeCall untitled_stats None \<in> set (snd (snd (display sample_env True untitled_plugin)))
   \<and> UpdateDisplay \<notin> set (snd (snd (display sample_env True untitled_plugin)))
   \<and> last_displayed_stats (fst (snd (display sample_env True untitled_plugin)))
       = last_displayed_stats untitled_plugin"
proof -
  have m: "StoreLastDisplayed sample_stats \<in> set (sample_fetch_calls @ sample_drawn)"
    by (simp add: sample_drawn_def)
  have en': "enabled untitled_plugin"
    and cs: "channel_stats untitled_plugin = Some untitled_stats"
    by (simp_all add: untitled_plugin_def sample_plugin_def)
  have b: "display sample_env True untitled_plugin
             = (None, untitled_plugin, [SurfaceClear, ComposeCall untitled_stats None])"
    using display_with_stats [OF en' cs, of sample_env True]
    by (simp add: redraw_def rendered_def untitled_compose)
  have m': "ComposeCall untitled_stats None \<in> set [SurfaceClear, ComposeCall untitled_stats None]"
    by simp
  have A: "\<exists>pre img. sample_fetch_calls @ sample_drawn
                   = pre @ [ComposeCall sample_stats (Some img), SetImage img, UpdateDisplay,
                            StoreLastDisplayed sample_stats]
                 \<and> create_display sample_env sample_plugin sample_stats = Some img
                 \<and> last_displayed_stats sample_shown = Some sample_stats"
    using last_displayed_after_handoff [OF sample_display(1)] m by blast
  have B: "UpdateDisplay \<notin> set [SurfaceClear, ComposeCall untitled_stats None]
           \<and> last_displayed_stats untitled_plugin = last_displayed_stats untitled_plugin"
    using last_displayed_after_handoff [OF b] m' by blast
  show ?thesis
    using A B m m' sample_display(1) b by simp
qed


section \<open>A failed fetch\<close>

lemma call_counter_frame:
  "cache (call_counter m s) = cache s"
  "channel_stats (call_counter m s) = channel_stats s"
  "last_displayed_stats (call_counter m s) = last_displayed_stats s"
  "plugin_id (call_counter m s) = plugin_id s"
  "enabled (call_counter m s) = enabled s"
  by (simp_all add: call_counter_def split: counter_mode.splits)

lemma get_channel_stats_network:
  assumes "api_key s \<noteq> []" and "channel_id s \<noteq> []"
    and "cache_get (cache s) (now e) (cache_key s) (update_interval_config s) = None"
  shows "get_channel_stats e s =
           (case http e of
              JsonBody data \<Rightarrow>
                (case parse_stats data of
                   Inr (Some st) \<Rightarrow>
                     (Inr (Some st),
                      (call_counter (counter e) s)
                        \<lparr>cache := cache_set (cache s) (now e) (cache_key s) st\<rparr>,
                      [CacheGet (cache_key s) (update_interval_config s), HttpGet (fetch_url s),
                       CounterCall, CacheSet (cache_key s) st (update_interval_config s)])
                 | Inr None \<Rightarrow>
                     (Inr None, call_counter (counter e) s,
                      [CacheGet (cache_key s) (update_interval_config s), HttpGet (fetch_url s),
                       CounterCall])
                 | Inl x \<Rightarrow>
                     ((if caught x then Inr None else Inl x), call_counter (counter e) s,
                      [CacheGet (cache_key s) (update_interval_config s), HttpGet (fetch_url s),
                       CounterCall]))
            | JsonTooDeep \<Rightarrow>
                (Inl RecursionError, s,
                 [CacheGet (cache_key s) (update_interval_config s), HttpGet (fetch_url s)])
            | _ \<Rightarrow>
                (Inr None, s,
                 [CacheGet (cache_key s) (update_interval_config s), HttpGet (fetch_url s)]))"
  using assms
  by (simp add: get_channel_stats_def cache_key_def Let_def call_counter_frame
      split: http_outcome.splits sum.splits option.splits)

lemma get_channel_stats_cached:
  assumes "api_key s \<noteq> []" and "channel_id s \<noteq> []"
    and "cache_get (cache s) (now e) (cache_key s) (update_interval_config s) = Some v"
  shows "get_channel_stats e s =
           (Inr (Some v), s, [CacheGet (cache_key s) (update_interval_config s)])"
  using assms by (simp add: get_channel_stats_def cache_key_def)

text \<open>
  C3, as amended. On an enabled plugin, when a fetch reaches the network and fails with
  an error that lines 174-179 catch (the request raises, the status is not 2xx, the body
  is not JSON and the decoder raises \<^verbatim>\<open>JSONDecodeError\<close>, the body has no items, or its
  parsing raises \<^verbatim>\<open>KeyError\<close>, \<^verbatim>\<open>ValueError\<close> or \<^verbatim>\<open>TypeError\<close>), the fetch returns \<open>None\<close>
  and \<open>update\<close> stores that \<open>None\<close> in place of the snapshot it held; the snapshot
  displayed last and the cache are as before. The two errors that the handlers do not
  catch are outside this statement and are treated below.
\<close>

theorem update_after_failed_fetch:
  assumes en: "enabled s" and key: "api_key s \<noteq> []" and cid: "channel_id s \<noteq> []"
    and miss: "cache_get (cache s) (now e) (cache_key s) (update_interval_config s) = None"
    and fails: "fetch_fails (http e)"
  shows "fst (get_channel_stats e s) = Inr None
         \<and> fst (update e s) = None
         \<and> channel_stats (fst (snd (update e s))) = None
         \<and> last_displayed_stats (fst (snd (update e s))) = last_displayed_stats s
         \<and> cache (fst (snd (update e s))) = cache s"
proof -
  obtain s1 calls where g: "get_channel_stats e s = (Inr None, s1, calls)" and c: "cache s1 = cache s"
    and l: "last_displayed_stats s1 = last_displayed_stats s"
    using fails get_channel_stats_network [OF key cid miss]
    by (auto simp: fetch_fails_def call_counter_frame
        split: http_outcome.splits sum.splits option.splits)
  then show ?thesis using en by (simp add: update_def)
qed

lemma offline_miss:
  "cache_get (cache sample_shown) (now offline_env) (cache_key sample_shown)
     (update_interval_config sample_shown) = None"
  by (simp add: cache_get_def cache_set_def cache_key_def sample_shown_def sample_fetched_def
      sample_plugin_def offline_env_def sample_env_def sample_key_def)

theorem update_after_failed_fetch_witness:
  "enabled sample_shown \<and> fetch_fails (http offline_env)
   \<and> fst (get_channel_stats offline_env sample_shown) = Inr None
   \<and> fst (update offline_env sample_shown) = None
   \<and> channel_stats (fst (snd (update offline_env sample_shown))) = None
   \<and> last_displayed_stats (fst (snd (update offline_env sample_shown)))
       = last_displayed_stats sample_shown
   \<and> cache (fst (snd (update offline_env sample_shown))) = cache sample_shown"
proof -
  have en: "enabled sample_shown" and key: "api_key sample_shown \<noteq> []"
    and cid: "channel_id sample_shown \<noteq> []"
    by (simp_all add: sample_shown_def sample_fetched_def sample_plugin_def)
  have fails: "fetch_fails (http offline_env)"
    by (simp add: fetch_fails_def offline_env_def)
  show ?thesis
    using update_after_failed_fetch [OF en key cid offline_miss fails] en fails by simp
qed

text \<open>
  The claim as stated fails: the snapshot held before the failed fetch is not retained.
\<close>

theorem update_after_failed_fetch_counterexample:
  "enabled sample_shown
   \<and> channel_stats sample_shown = Some sample_stats
   \<and> fst (get_channel_stats offline_env sample_shown) = Inr None
   \<and> channel_stats (fst (snd (update offline_env sample_shown))) = None
   \<and> channel_stats (fst (snd (update offline_env sample_shown))) \<noteq> channel_stats sample_shown"
proof -
  have en: "enabled sample_shown" and key: "api_key sample_shown \<noteq> []"
    and cid: "channel_id sample_shown \<noteq> []"
    and cs: "channel_stats sample_shown = Some sample_stats"
    by (simp_all add: sample_shown_def sample_fetched_def sample_plugin_def)
  have g: "get_channel_stats offline_env sample_shown
             = (Inr None, sample_shown,
                [CacheGet (cache_key sample_shown) (update_interval_config sample_shown),
                 HttpGet (fetch_url sample_shown)])"
    using get_channel_stats_network [OF key cid offline_miss] by (simp add: offline_env_def)
  show ?thesis using en cs g by (simp add: update_def)
qed

text \<open>
  Not every malformed response ends in \<open>None\<close>: a count that is an infinite float makes
  \<^verbatim>\<open>int()\<close> raise \<^verbatim>\<open>OverflowError\<close>, which neither \<^verbatim>\<open>except\<close> clause catches, so the
  exception leaves \<^verbatim>\<open>_get_channel_stats\<close> and \<^verbatim>\<open>update\<close>. So does the \<^verbatim>\<open>RecursionError\<close>
  that \<^verbatim>\<open>response.json()\<close> raises on a body nested too deep: the request has been sent,
  the counter is not called, \<open>update\<close> raises and the snapshot it held stays in place.
\<close>

lemma deep_body_raises:
  assumes en: "enabled s" and key: "api_key s \<noteq> []" and cid: "channel_id s \<noteq> []"
    and miss: "cache_get (cache s) (now e) (cache_key s) (update_interval_config s) = None"
    and deep: "http e = JsonTooDeep"
  shows "get_channel_stats e s
           = (Inl RecursionError, s,
              [CacheGet (cache_key s) (update_interval_config s), HttpGet (fetch_url s)])"
    and "update e s
           = (Some RecursionError, s,
              [CacheGet (cache_key s) (update_interval_config s), HttpGet (fetch_url s)])"
    and "\<not> fetch_fails (http e)"
proof -
  show g: "get_channel_stats e s
             = (Inl RecursionError, s,
                [CacheGet (cache_key s) (update_interval_config s), HttpGet (fetch_url s)])"
    using get_channel_stats_network [OF key cid miss] deep by simp
  show "update e s
          = (Some RecursionError, s,
             [CacheGet (cache_key s) (update_interval_config s), HttpGet (fetch_url s)])"
    using en g by (simp add: update_def)
  show "\<not> fetch_fails (http e)" using deep by (simp add: fetch_fails_def)
qed

lemma deep_body_keeps_snapshot:
  "update (offline_env\<lparr>http := JsonTooDeep\<rparr>) sample_shown
     = (Some RecursionError, sample_shown,
        [CacheGet (cache_key sample_shown) (update_interval_config sample_shown),
         HttpGet (fetch_url sample_shown)])
   \<and> channel_stats sample_shown = Some sample_stats"
proof -
  have en: "enabled sample_shown" and key: "api_key sample_shown \<noteq> []"
    and cid: "channel_id sample_shown \<noteq> []"
    and cs: "channel_stats sample_shown = Some sample_stats"
    by (simp_all add: sample_shown_def sample_fetched_def sample_plugin_def)
  have miss: "cache_get (cache sample_shown) (now (offline_env\<lparr>http := JsonTooDeep\<rparr>))
                (cache_key sample_shown) (update_interval_config sample_shown) = None"
    using offline_miss by simp
  have deep: "http (offline_env\<lparr>http := JsonTooDeep\<rparr>) = JsonTooDeep" by simp
  show ?thesis using deep_body_raises(2) [OF en key cid miss deep] cs by simp
qed

lemma infinite_count_raises:
  "fst (get_channel_stats (sample_env\<lparr>http := JsonBody infinite_response\<rparr>) sample_plugin)
     = Inl OverflowError
   \<and> fst (update (sample_env\<lparr>http := JsonBody infinite_response\<rparr>) sample_plugin)
       = Some OverflowError"
proof -
  have p: "parse_stats infinite_response = Inl OverflowError"
    by (simp add: parse_stats_def infinite_response_def exn_bind_def)
  have g: "fst (get_channel_stats (sample_env\<lparr>http := JsonBody infinite_response\<rparr>) sample_plugin)
             = Inl OverflowError"
    by (simp add: get_channel_stats_def p cache_get_def caught_def sample_plugin_def sample_env_def
        Let_def)
  obtain s1 calls where g':
    "get_channel_stats (sample_env\<lparr>http := JsonBody infinite_response\<rparr>) sample_plugin
       = (Inl OverflowError, s1, calls)"
    using g by (cases "get_channel_stats (sample_env\<lparr>http := JsonBody infinite_response\<rparr>)
                         sample_plugin") simp
  have en: "enabled sample_plugin" by (simp add: sample_plugin_def)
  show ?thesis using g g' en by (simp add: update_def)
qed

section \<open>Cache hit and cache miss\<close>

text \<open>
  C4, as amended. Take a fetch with a channel id and an API key that are not empty. If
  the cache holds, under the plugin's key, an entry younger than the refresh interval,
  the fetch returns the cached value, issues no network request and leaves everything
  as it was. If there is no entry, or the entry's age is the refresh interval or more,
  the fetch issues exactly one network request, right after the cache lookup.
\<close>

theorem fetch_cache_hit_or_request:
  assumes key: "api_key s \<noteq> []" and cid: "channel_id s \<noteq> []"
  shows "(\<forall>v t. cache s (cache_key s) = Some (v, t) \<and> now e - t < update_interval_config s \<longrightarrow>
            get_channel_stats e s
              = (Inr (Some v), s, [CacheGet (cache_key s) (update_interval_config s)]))
       \<and> ((cache s (cache_key s) = None
            \<or> (\<exists>v t. cache s (cache_key s) = Some (v, t) \<and> update_interval_config s \<le> now e - t)) \<longrightarrow>
           (\<exists>post. snd (snd (get_channel_stats e s))
                      = [CacheGet (cache_key s) (update_interval_config s), HttpGet (fetch_url s)]
                          @ post
                    \<and> filter is_http_get post = []))"
proof (intro conjI allI impI)
  fix v t
  assume "cache s (cache_key s) = Some (v, t) \<and> now e - t < update_interval_config s"
  then have "cache_get (cache s) (now e) (cache_key s) (update_interval_config s) = Some v"
    by (simp add: cache_get_def)
  then show "get_channel_stats e s
               = (Inr (Some v), s, [CacheGet (cache_key s) (update_interval_config s)])"
    by (rule get_channel_stats_cached [OF key cid])
next
  assume "cache s (cache_key s) = None
          \<or> (\<exists>v t. cache s (cache_key s) = Some (v, t) \<and> update_interval_config s \<le> now e - t)"
  then have miss: "cache_get (cache s) (now e) (cache_key s) (update_interval_config s) = None"
    by (auto simp: cache_get_def)
  show "\<exists>post. snd (snd (get_channel_stats e s))
                  = [CacheGet (cache_key s) (update_interval_config s), HttpGet (fetch_url s)] @ post
                \<and> filter is_http_get post = []"
    by (simp add: get_channel_stats_network [OF key cid miss]
        split: http_outcome.splits sum.splits option.splits)
qed

lemma sample_shown_config:
  "api_key sample_shown \<noteq> []" "channel_id sample_shown \<noteq> []"
  "cache sample_shown (cache_key sample_shown) = Some (sample_stats, 1000)"
  "update_interval_config sample_shown = 300"
  by (simp_all add: sample_shown_def sample_fetched_def sample_plugin_def cache_key_def
      sample_key_def cache_set_def)

theorem fetch_cache_hit_or_request_witness:
  "api_key sample_shown \<noteq> [] \<and> channel_id sample_shown \<noteq> []
   \<and> cache sample_shown (cache_key sample_shown) = Some (sample_stats, 1000)
   \<and> now soon_env - 1000 < update_interval_config sample_shown
   \<and> get_channel_stats soon_env sample_shown
       = (Inr (Some sample_stats), sample_shown,
          [CacheGet (cache_key sample_shown) (update_interval_config sample_shown)])
   \<and> update_interval_config sample_shown \<le> now boundary_env - 1000
   \<and> (\<exists>post. snd (snd (get_channel_stats boundary_env sample_shown))
                = [CacheGet (cache_key sample_shown) (update_interval_config sample_shown),
                   HttpGet (fetch_url sample_shown)] @ post
              \<and> filter is_http_get post = [])"
proof -
  note c = sample_shown_config
  have young: "now soon_env - 1000 < update_interval_config sample_shown"
    by (simp add: c soon_env_def sample_env_def)
  have old: "update_interval_config sample_shown \<le> now boundary_env - 1000"
    by (simp add: c boundary_env_def sample_env_def)
  have hit: "get_channel_stats soon_env sample_shown
       = (Inr (Some sample_stats), sample_shown,
          [CacheGet (cache_key sample_shown) (update_interval_config sample_shown)])"
    using fetch_cache_hit_or_request [OF c(1) c(2), of soon_env] c(3) young by blast
  have miss: "\<exists>post. snd (snd (get_channel_stats boundary_env sample_shown))
                = [CacheGet (cache_key sample_shown) (update_interval_config sample_shown),
                   HttpGet (fetch_url sample_shown)] @ post
              \<and> filter is_http_get post = []"
    using fetch_cache_hit_or_request [OF c(1) c(2), of boundary_env] c(3) old by blast
  show ?thesis using c(1) c(2) c(3) young old hit miss by blast
qed

text \<open>
  The claim as stated fails when the API key is empty: a fresh entry is in the cache and
  the fetch returns \<open>None\<close>, not the cached value; and with no entry in the cache the
  fetch issues no network request.
\<close>

theorem fetch_cache_counterexample:
  "cache_get (cache (sample_shown\<lparr>api_key := []\<rparr>)) (now soon_env)
       (cache_key (sample_shown\<lparr>api_key := []\<rparr>))
       (update_interval_config (sample_shown\<lparr>api_key := []\<rparr>)) = Some sample_stats
   \<and> fst (get_channel_stats soon_env (sample_shown\<lparr>api_key := []\<rparr>)) = Inr None
   \<and> cache (sample_plugin\<lparr>api_key := []\<rparr>) (cache_key (sample_plugin\<lparr>api_key := []\<rparr>)) = None
   \<and> filter is_http_get (snd (snd (get_channel_stats soon_env (sample_plugin\<lparr>api_key := []\<rparr>)))) = []"
  by (simp add: get_channel_stats_def cache_get_def cache_set_def cache_key_def sample_shown_def
      sample_fetched_def sample_plugin_def soon_env_def sample_env_def sample_key_def)

section \<open>The usage counter\<close>

text \<open>
  C8, as amended. The usage counter is called exactly when the fetch issued a network
  request whose response had a 2xx status and a body that decodes as JSON, whether or
  not a stats record is then parsed from that body; it is never called on a cache hit
  or when the configuration is missing. A working counter is then one higher and
  otherwise unchanged. Whether the counter works, is absent or raises changes neither
  the value the fetch returns, nor the calls it makes, nor the plugin apart from the
  counter itself.
\<close>

theorem counter_called_on_decoded_response:
  assumes g: "get_channel_stats e s = (r, s', calls)"
  shows "(CounterCall \<in> set calls \<longleftrightarrow>
            HttpGet (fetch_url s) \<in> set calls \<and> (\<exists>data. http e = JsonBody data))
       \<and> (calls = [CacheGet (cache_key s) (update_interval_config s)] \<longrightarrow> CounterCall \<notin> set calls)
       \<and> api_counter s' =
            (if CounterCall \<in> set calls \<and> counter e = CounterWorks then api_counter s + 1
             else api_counter s)
       \<and> (\<forall>m. fst (get_channel_stats (e\<lparr>counter := m\<rparr>) s) = r
              \<and> snd (snd (get_channel_stats (e\<lparr>counter := m\<rparr>) s)) = calls
              \<and> (fst (snd (get_channel_stats (e\<lparr>counter := m\<rparr>) s)))\<lparr>api_counter := 0\<rparr>
                  = s'\<lparr>api_counter := 0\<rparr>)"
proof (cases "api_key s = [] \<or> channel_id s = []")
  case True
  then have "get_channel_stats e' s = (Inr None, s, [])" for e'
    by (auto simp: get_channel_stats_def)
  with g show ?thesis by simp
next
  case False
  then have key: "api_key s \<noteq> []" and cid: "channel_id s \<noteq> []" by simp_all
  show ?thesis
  proof (cases "cache_get (cache s) (now e) (cache_key s) (update_interval_config s)")
    case (Some v)
    then have "cache_get (cache s) (now (e\<lparr>counter := m\<rparr>)) (cache_key s) (update_interval_config s)
                 = Some v" for m
      by simp
    from get_channel_stats_cached [OF key cid this] get_channel_stats_cached [OF key cid Some] g
    show ?thesis by simp
  next
    case None
    then have none: "cache_get (cache s) (now (e\<lparr>counter := m\<rparr>)) (cache_key s)
                       (update_interval_config s) = None" for m
      by simp
    note a = get_channel_stats_network [OF key cid None]
    note b = get_channel_stats_network [OF key cid none]
    show ?thesis
      using g unfolding a b
      by (auto simp: call_counter_def
          split: http_outcome.splits sum.splits option.splits counter_mode.splits if_splits)
  qed
qed

lemma empty_items_fetch:
  "get_channel_stats (sample_env\<lparr>http := JsonBody empty_items_response\<rparr>) sample_plugin
     = (Inr None, sample_plugin\<lparr>api_counter := 1\<rparr>,
        [CacheGet sample_key 300,
         HttpGet ''https://www.googleapis.com/youtube/v3/channels?part=statistics,snippet&id=UC123&key=key'',
         CounterCall])"
proof -
  have p: "parse_stats empty_items_response = Inr None"
    by (simp add: parse_stats_def empty_items_response_def exn_bind_def)
  show ?thesis
    by (simp add: get_channel_stats_def p cache_get_def fetch_url_def call_counter_def
        sample_plugin_def sample_env_def sample_key_def Let_def)
qed

theorem counter_called_on_decoded_response_witness:
  "CounterCall \<in> set sample_fetch_calls
   \<and> HttpGet (fetch_url sample_plugin) \<in> set sample_fetch_calls
   \<and> api_counter (sample_plugin\<lparr>cache := cache_set (\<lambda>k. None) 1000 sample_key sample_stats,
                                  api_counter := 1\<rparr>) = api_counter sample_plugin + 1
   \<and> fst (get_channel_stats (sample_env\<lparr>counter := CounterRaises\<rparr>) sample_plugin)
       = Inr (Some sample_stats)
   \<and> snd (snd (get_channel_stats (sample_env\<lparr>counter := CounterAbsent\<rparr>) sample_plugin))
       = sample_fetch_calls"
proof -
  note t = counter_called_on_decoded_response [OF sample_fetch]
  have c: "CounterCall \<in> set sample_fetch_calls" by (simp add: sample_fetch_calls_def)
  have w: "counter sample_env = CounterWorks" by (simp add: sample_env_def)
  have h: "HttpGet (fetch_url sample_plugin) \<in> set sample_fetch_calls" using t c by blast
  have n: "api_counter (sample_plugin\<lparr>cache := cache_set (\<lambda>k. None) 1000 sample_key sample_stats,
                                  api_counter := 1\<rparr>) = api_counter sample_plugin + 1"
    using t c w by simp
  have m1: "fst (get_channel_stats (sample_env\<lparr>counter := CounterRaises\<rparr>) sample_plugin)
       = Inr (Some sample_stats)"
    using t by blast
  have m2: "snd (snd (get_channel_stats (sample_env\<lparr>counter := CounterAbsent\<rparr>) sample_plugin))
       = sample_fetch_calls"
    using t by blast
  show ?thesis using c h n m1 m2 by blast
qed

text \<open>
  The claim as stated fails: a response with status 2xx and an empty \<^verbatim>\<open>items\<close> array
  (what the endpoint sends for an unknown channel) yields no stats record, and the
  counter has been incremented.
\<close>

theorem counter_counterexample:
  "fst (get_channel_stats (sample_env\<lparr>http := JsonBody empty_items_response\<rparr>) sample_plugin)
     = Inr None
   \<and> CounterCall \<in> set (snd (snd (get_channel_stats
         (sample_env\<lparr>http := JsonBody empty_items_response\<rparr>) sample_plugin)))
   \<and> api_counter (fst (snd (get_channel_stats
         (sample_env\<lparr>http := JsonBody empty_items_response\<rparr>) sample_plugin)))
       = api_counter sample_plugin + 1"
  by (simp add: empty_items_fetch) (simp add: sample_plugin_def)


section \<open>The sign of the counts\<close>

lemma digit_val_nonneg: "is_digit c \<Longrightarrow> 0 \<le> digit_val c"
  by (simp add: is_digit_def digit_val_def Let_def)

lemma digits_fold_nonneg:
  "0 \<le> a \<Longrightarrow> 0 \<le> foldl (\<lambda>acc c. 10 * acc + digit_val c) a (filter is_digit ds)"
  by (induction ds arbitrary: a) (simp_all add: digit_val_nonneg)

lemma digits_value_nonneg: "0 \<le> digits_value ds"
  by (simp add: digits_value_def digits_fold_nonneg)

lemma py_strip_subset: "set (py_strip s) \<subseteq> set s"
proof -
  have "set (dropWhile py_isspace (rev (dropWhile py_isspace s))) \<subseteq> set (rev (dropWhile py_isspace s))"
    by (auto dest: set_dropWhileD)
  also have "\<dots> \<subseteq> set s" by (auto dest: set_dropWhileD)
  finally show ?thesis by (simp add: py_strip_def)
qed

lemma int_of_str_nonneg:
  assumes "int_of_str s = Inr n" and "CHR ''-'' \<notin> set s"
  shows "0 \<le> n"
proof (cases "py_strip s")
  case Nil
  with assms(1) show ?thesis by (simp add: int_of_str_def)
next
  case (Cons c r)
  then have "c \<in> set s" using py_strip_subset [of s] by auto
  with assms(2) have "c \<noteq> CHR ''-''" by auto
  with assms(1) Cons show ?thesis
    by (auto simp: int_of_str_def digits_value_nonneg split: if_splits)
qed

lemma py_int_nonneg: "py_int v = Inr n \<Longrightarrow> no_minus v \<Longrightarrow> 0 \<le> n"
proof (cases v)
  case (VStr s)
  assume "py_int v = Inr n" "no_minus v"
  with VStr show ?thesis by (simp add: int_of_str_nonneg)
next
  case (VFloat f)
  assume "py_int v = Inr n" "no_minus v"
  with VFloat show ?thesis by (cases f) (auto simp: trunc_rat_def)
qed (auto split: if_splits)

lemma exn_bind_Inr:
  "exn_bind m f = Inr y \<longleftrightarrow> (\<exists>x. m = Inr x \<and> f x = Inr y)"
  by (cases m) (simp_all add: exn_bind_def)

lemma parse_stats_fields:
  assumes "parse_stats data = Inr (Some st)"
  shows "\<exists>sc vc. count_field ''subscriberCount'' data = Inr sc
                 \<and> count_field ''viewCount'' data = Inr vc
                 \<and> py_int sc = Inr (subscribers st) \<and> py_int vc = Inr (views st)"
  using assms unfolding parse_stats_def count_field_def
  by (auto simp: exn_bind_Inr split: if_splits)

lemma parse_stats_nonneg:
  assumes p: "parse_stats data = Inr (Some st)" and ok: "response_no_minus (JsonBody data)"
  shows "nonneg_stats st"
proof -
  obtain sc vc where f: "count_field ''subscriberCount'' data = Inr sc"
      "count_field ''viewCount'' data = Inr vc"
      "py_int sc = Inr (subscribers st)" "py_int vc = Inr (views st)"
    using parse_stats_fields [OF p] by blast
  with ok have "no_minus sc" "no_minus vc" by (simp_all add: response_no_minus_def)
  with f show ?thesis by (simp add: nonneg_stats_def py_int_nonneg)
qed

lemma fetch_keeps_nonneg:
  assumes g: "get_channel_stats e s = (r, s', calls)"
    and inv: "stored_nonneg s" and ok: "response_no_minus (http e)"
  shows "stored_nonneg s' \<and> (\<forall>st. r = Inr (Some st) \<longrightarrow> nonneg_stats st)"
proof (cases "api_key s = [] \<or> channel_id s = []")
  case True
  then have "get_channel_stats e s = (Inr None, s, [])" by (auto simp: get_channel_stats_def)
  with g inv show ?thesis by auto
next
  case False
  then have key: "api_key s \<noteq> []" and cid: "channel_id s \<noteq> []" by simp_all
  show ?thesis
  proof (cases "cache_get (cache s) (now e) (cache_key s) (update_interval_config s)")
    case (Some v)
    then have "nonneg_stats v" using inv
      by (auto simp: cache_get_def stored_nonneg_def opt_nonneg_def split: option.splits if_splits)
    with get_channel_stats_cached [OF key cid Some] g inv show ?thesis by simp
  next
    case None
    note a = get_channel_stats_network [OF key cid None]
    have k: "cache_key (call_counter m s) = cache_key s" for m
      by (simp add: cache_key_def call_counter_frame)
    have inv': "stored_nonneg (call_counter m s)" for m
      using inv by (simp add: stored_nonneg_def call_counter_frame k)
    show ?thesis
    proof (cases "http e")
      case (JsonBody data)
      show ?thesis
      proof (cases "parse_stats data")
        case (Inl x)
        with g a JsonBody inv' show ?thesis by (auto split: if_splits)
      next
        case (Inr res)
        show ?thesis
        proof (cases res)
          case None
          with g a JsonBody Inr inv' show ?thesis by auto
        next
          case (Some st)
          have nn: "nonneg_stats st"
            using parse_stats_nonneg [of data st] Inr Some ok JsonBody by simp
          have "stored_nonneg ((call_counter (counter e) s)
                   \<lparr>cache := cache_set (cache s) (now e) (cache_key s) st\<rparr>)"
            using inv nn
            by (simp add: stored_nonneg_def opt_nonneg_def call_counter_frame cache_key_def
                cache_set_def)
          with g a JsonBody Inr Some nn show ?thesis by auto
        qed
      qed
    qed (use g a inv in auto)
  qed
qed

lemma update_keeps_nonneg:
  assumes u: "update e s = (r, s', calls)"
    and inv: "stored_nonneg s" and ok: "response_no_minus (http e)"
  shows "stored_nonneg s'"
proof (cases "enabled s")
  case False
  with u inv show ?thesis by (simp add: update_def)
next
  case True
  obtain r1 s1 c1 where g: "get_channel_stats e s = (r1, s1, c1)"
    by (cases "get_channel_stats e s") auto
  note k = fetch_keeps_nonneg [OF g inv ok]
  show ?thesis
  proof (cases r1)
    case (Inl x)
    with u g True k show ?thesis by (simp add: update_def)
  next
    case (Inr res)
    with k have "opt_nonneg res" by (cases res) (simp_all add: opt_nonneg_def)
    with u g True k Inr show ?thesis
      by (auto simp: update_def stored_nonneg_def cache_key_def)
  qed
qed

lemma redraw_keeps_nonneg:
  assumes rd: "redraw e fc s1 c1 cur = (r, s', calls)"
    and inv: "stored_nonneg s1" and cs: "channel_stats s1 = Some cur"
  shows "stored_nonneg s'"
proof -
  have "nonneg_stats cur" using inv cs by (simp add: stored_nonneg_def opt_nonneg_def)
  with rd inv show ?thesis
    by (auto simp: redraw_def stored_nonneg_def opt_nonneg_def cache_key_def
        split: if_splits option.splits)
qed

lemma display_keeps_nonneg:
  assumes d: "display e fc s = (r, s', calls)"
    and inv: "stored_nonneg s" and ok: "response_no_minus (http e)"
  shows "stored_nonneg s'"
proof (cases "enabled s")
  case False
  with d inv show ?thesis by (simp add: display_disabled)
next
  case en: True
  show ?thesis
  proof (cases "channel_stats s")
    case (Some cur)
    with en d have "redraw e fc s [] cur = (r, s', calls)" by (simp add: display_with_stats)
    then show ?thesis using inv Some by (rule redraw_keeps_nonneg)
  next
    case None
    obtain r1 s1 c1 where u: "update e s = (r1, s1, c1)" by (cases "update e s") auto
    note inv1 = update_keeps_nonneg [OF u inv ok]
    note dl = display_lazy [OF en None u, of fc]
    show ?thesis
    proof (cases r1)
      case (Some x)
      with dl d inv1 show ?thesis by simp
    next
      case r1: None
      show ?thesis
      proof (cases "channel_stats s1")
        case None
        with dl d r1 inv1 show ?thesis by simp
      next
        case (Some cur)
        with dl d r1 have "redraw e fc s1 c1 cur = (r, s', calls)" by simp
        then show ?thesis using inv1 Some by (rule redraw_keeps_nonneg)
      qed
    qed
  qed
qed

text \<open>
  C9, as amended. When the \<^verbatim>\<open>subscriberCount\<close> and \<^verbatim>\<open>viewCount\<close> fields of the
  response denote no negative number (no minus sign in a str, no negative int or float),
  every stats record that the fetch produces has counts that are integers at least 0,
  and if the snapshots the plugin held before (the current one, the one displayed last
  and the one under its cache key) had such counts, so have those it holds after a
  fetch, an \<open>update\<close> or a \<open>display\<close>.
\<close>

theorem counts_nonnegative:
  assumes inv: "stored_nonneg s" and ok: "response_no_minus (http e)"
  shows "(\<forall>st. fst (get_channel_stats e s) = Inr (Some st) \<longrightarrow>
            0 \<le> subscribers st \<and> 0 \<le> views st)
       \<and> stored_nonneg (fst (snd (get_channel_stats e s)))
       \<and> stored_nonneg (fst (snd (update e s)))
       \<and> stored_nonneg (fst (snd (display e fc s)))"
proof -
  obtain r1 s1 c1 where g: "get_channel_stats e s = (r1, s1, c1)"
    by (cases "get_channel_stats e s") auto
  obtain r2 s2 c2 where u: "update e s = (r2, s2, c2)" by (cases "update e s") auto
  obtain r3 s3 c3 where d: "display e fc s = (r3, s3, c3)" by (cases "display e fc s") auto
  show ?thesis
    using fetch_keeps_nonneg [OF g inv ok] update_keeps_nonneg [OF u inv ok]
      display_keeps_nonneg [OF d inv ok] g u d
    by (simp add: nonneg_stats_def)
qed

theorem counts_nonnegative_witness:
  "stored_nonneg sample_plugin \<and> response_no_minus (http sample_env)
   \<and> fst (get_channel_stats sample_env sample_plugin) = Inr (Some sample_stats)
   \<and> 0 \<le> subscribers sample_stats \<and> 0 \<le> views sample_stats
   \<and> stored_nonneg (fst (snd (get_channel_stats sample_env sample_plugin)))
   \<and> stored_nonneg (fst (snd (update sample_env sample_plugin)))
   \<and> stored_nonneg (fst (snd (display sample_env False sample_plugin)))"
proof -
  have inv: "stored_nonneg sample_plugin"
    by (simp add: stored_nonneg_def opt_nonneg_def sample_plugin_def)
  have ok: "response_no_minus (http sample_env)"
    by (simp add: response_no_minus_def sample_env_def sample_response_def count_field_def
        exn_bind_def)
  have f: "fst (get_channel_stats sample_env sample_plugin) = Inr (Some sample_stats)"
    by (simp add: sample_fetch)
  show ?thesis
    using counts_nonnegative [OF inv ok, of False] inv ok f by blast
qed

text \<open>
  The claim as stated fails: the parser accepts a response whose subscriber count is
  the str \<^verbatim>\<open>-5\<close>, and the record it yields, returned and written to the cache, has
  a negative count.
\<close>

theorem counts_counterexample:
  "parse_stats negative_response = Inr (Some negative_stats)
   \<and> fst (get_channel_stats (sample_env\<lparr>http := JsonBody negative_response\<rparr>) sample_plugin)
       = Inr (Some negative_stats)
   \<and> cache (fst (snd (get_channel_stats (sample_env\<lparr>http := JsonBody negative_response\<rparr>)
                        sample_plugin))) (cache_key sample_plugin)
       = Some (negative_stats, 1000)
   \<and> subscribers negative_stats < 0"
proof -
  have p: "parse_stats negative_response = Inr (Some negative_stats)"
    by (simp add: parse_stats_def negative_response_def negative_stats_def exn_bind_def
        int_of_str_def py_strip_def py_isspace_def is_digit_def digits_value_def digit_val_def)
  have key: "api_key sample_plugin \<noteq> []" and cid: "channel_id sample_plugin \<noteq> []"
    by (simp_all add: sample_plugin_def)
  have miss: "cache_get (cache sample_plugin)
                (now (sample_env\<lparr>http := JsonBody negative_response\<rparr>))
                (cache_key sample_plugin) (update_interval_config sample_plugin) = None"
    by (simp add: cache_get_def sample_plugin_def)
  have n: "now (sample_env\<lparr>http := JsonBody negative_response\<rparr>) = 1000"
    by (simp add: sample_env_def)
  show ?thesis
    using get_channel_stats_network [OF key cid miss] p n
    by (simp add: cache_set_def call_counter_frame negative_stats_def)
qed

section \<open>Truncation of the channel name\<close>









end
